theory Spec2Isabelle
  imports Main "HOL-Library.List_Lexorder" "HOL-Library.Word"
begin

section \<open>Fixed-point decimals\<close>

text \<open>
  \<open>sdk.Dec\<close> is the 18-digit fixed-point decimal of the cosmos-sdk library: a big
  integer holding the value multiplied by \<open>10 ^ 18\<close>. A \<open>Dec\<close> of the model is that
  raw integer, so \<open>GT\<close>, \<open>LT\<close>, \<open>GTE\<close>, \<open>Equal\<close>, \<open>Add\<close> and \<open>Sub\<close> are the
  order and arithmetic of \<open>int\<close>, and \<open>IsZero\<close> is equality with \<open>0\<close>. The
  library panics when a result needs more bits than its fixed bound; the model has no
  such bound, it speaks of the calls whose values stay representable.
\<close>

type_synonym Dec = int

definition PrecisionReuse :: int where
  "PrecisionReuse = 10 ^ 18"

definition OneDec :: Dec where
  "OneDec = PrecisionReuse"

text \<open>
  The library's \<open>Mul\<close> rounds the exact product to 18 digits, half to even
  (\<open>chopPrecisionAndRound\<close>, which works on the absolute value and restores the sign).
\<close>

definition chopPrecisionAndRound :: "int \<Rightarrow> int" where
  "chopPrecisionAndRound d =
     (let a = \<bar>d\<bar>;
          quo = a div PrecisionReuse;
          rem = a mod PrecisionReuse;
          r = (if rem = 0 then quo
               else if rem < PrecisionReuse div 2 then quo
               else if rem > PrecisionReuse div 2 then quo + 1
               else if even quo then quo else quo + 1)
      in if d < 0 then - r else r)"

definition Mul :: "Dec \<Rightarrow> Dec \<Rightarrow> Dec" where
  "Mul a b = chopPrecisionAndRound (a * b)"

text \<open>
  Modelled from the spec: \<open>osmomath.BigDec\<close>, the high-precision decimal of the
  repository, whose code is not among the modelled files. It is the "secondary high
  precision representation with materially more fractional digits", whose conversions are
  "lossless when going from standard to high and truncating when going high to standard".
  The model holds the raw integer at 36 digits.
\<close>

type_synonym BigDec = int

definition BigDecPrecisionReuse :: int where
  "BigDecPrecisionReuse = 10 ^ 36"

definition BigDecFromSDKDec :: "Dec \<Rightarrow> BigDec" where
  "BigDecFromSDKDec d = d * (BigDecPrecisionReuse div PrecisionReuse)"

text \<open>
  Modelled from the spec: the two rounding directions of the arithmetic library,
  "truncation (never rounding to nearest) with caller-specified rounding direction": the
  integer quotient truncated toward zero, and the integer quotient rounded up.
\<close>

definition quo_trunc :: "int \<Rightarrow> int \<Rightarrow> int" where
  "quo_trunc x y = sgn x * sgn y * (\<bar>x\<bar> div \<bar>y\<bar>)"

definition quo_up :: "int \<Rightarrow> int \<Rightarrow> int" where
  "quo_up x y = - ((- x) div y)"

text \<open>
  Modelled from the spec: \<open>BigDec.SDKDec\<close>, the conversion from high to standard
  precision, which truncates (the comment on line 99 says so too).
\<close>

definition SDKDec :: "BigDec \<Rightarrow> Dec" where
  "SDKDec b = quo_trunc b (BigDecPrecisionReuse div PrecisionReuse)"

section \<open>The delta formulas of the math package\<close>

text \<open>
  Modelled from the spec: the functions of the repository's \<open>math\<close> package that the
  swap step calls, whose code is not among the modelled files. Each is written once, for
  a decimal whose raw unit is \<open>1 / p\<close>, and used at \<open>p = PrecisionReuse\<close> and at
  \<open>p = BigDecPrecisionReuse\<close>: the spec asks for "both a standard-precision and a
  high-precision implementation with identical mathematical semantics". Multiplication
  and division round at the last digit of the representation, in the direction named;
  a division by zero is the spec's \<open>ArithmeticError\<close>.
\<close>

datatype ArithmeticError = DivisionByZero

definition mul_trunc :: "int \<Rightarrow> int \<Rightarrow> int \<Rightarrow> int" where
  "mul_trunc p a b = quo_trunc (a * b) p"

definition mul_round_up :: "int \<Rightarrow> int \<Rightarrow> int \<Rightarrow> int" where
  "mul_round_up p a b = quo_up (a * b) p"

definition quo_truncate :: "int \<Rightarrow> int \<Rightarrow> int \<Rightarrow> ArithmeticError + int" where
  "quo_truncate p a b = (if b = 0 then Inl DivisionByZero else Inr (quo_trunc (a * p) b))"

definition quo_round_up :: "int \<Rightarrow> int \<Rightarrow> int \<Rightarrow> ArithmeticError + int" where
  "quo_round_up p a b = (if b = 0 then Inl DivisionByZero else Inr (quo_up (a * p) b))"

text \<open>
  Modelled from the spec: \<open>calcAmount1Delta(liquidity, sqrtPriceA, sqrtPriceB, roundUp)\<close>
  is the amount of token1 implied by liquidity held between two square-root prices,
  "token1 is linear in price", symmetric in the two prices (computed from their absolute
  difference); \<open>roundUp\<close> rounds in favour of the pool, otherwise the product is truncated.
\<close>

definition calcAmount1Delta :: "int \<Rightarrow> int \<Rightarrow> int \<Rightarrow> int \<Rightarrow> bool \<Rightarrow> int" where
  "calcAmount1Delta p liq sqrtPriceA sqrtPriceB roundUp =
     (let diff = \<bar>sqrtPriceB - sqrtPriceA\<bar>
      in if roundUp then mul_round_up p liq diff else mul_trunc p liq diff)"

text \<open>
  Modelled from the spec: \<open>calcAmount0Delta\<close> is the amount of token0 implied by
  liquidity held between two square-root prices, "token0 is linear in 1/price":
  \<open>liquidity * |A - B| / (A * B)\<close>, symmetric in the two prices. With \<open>roundUp\<close> every
  rounding makes the amount larger, without it every rounding makes it smaller.
\<close>

definition calcAmount0Delta ::
  "int \<Rightarrow> int \<Rightarrow> int \<Rightarrow> int \<Rightarrow> bool \<Rightarrow> ArithmeticError + int" where
  "calcAmount0Delta p liq sqrtPriceA sqrtPriceB roundUp =
     (let diff = \<bar>sqrtPriceB - sqrtPriceA\<bar>
      in if roundUp
         then quo_round_up p (mul_round_up p liq diff) (mul_trunc p sqrtPriceA sqrtPriceB)
         else quo_truncate p (mul_trunc p liq diff) (mul_round_up p sqrtPriceA sqrtPriceB))"

text \<open>
  Modelled from the spec: \<open>getNextSqrtPriceFromAmount1InRoundingDown\<close> solves for the
  square-root price reached from \<open>sqrtPriceCurrent\<close> when an amount of token1 is added
  to the liquidity: the current price plus amount over liquidity, the quotient truncated.
\<close>

definition getNextSqrtPriceFromAmount1InRoundingDown ::
  "int \<Rightarrow> int \<Rightarrow> int \<Rightarrow> int \<Rightarrow> ArithmeticError + int" where
  "getNextSqrtPriceFromAmount1InRoundingDown p sqrtPriceCurrent liquidity amountOneRemainingIn =
     (case quo_truncate p amountOneRemainingIn liquidity of
        Inl e \<Rightarrow> Inl e
      | Inr q \<Rightarrow> Inr (sqrtPriceCurrent + q))"

text \<open>
  Modelled from the spec: the five functions under the names the swap step calls them
  by, at standard and at high precision.
\<close>

definition CalcAmount1Delta :: "Dec \<Rightarrow> Dec \<Rightarrow> Dec \<Rightarrow> bool \<Rightarrow> Dec" where
  "CalcAmount1Delta = calcAmount1Delta PrecisionReuse"

definition CalcAmount0Delta :: "Dec \<Rightarrow> Dec \<Rightarrow> Dec \<Rightarrow> bool \<Rightarrow> ArithmeticError + Dec" where
  "CalcAmount0Delta = calcAmount0Delta PrecisionReuse"

definition GetNextSqrtPriceFromAmount1InRoundingDown ::
  "Dec \<Rightarrow> Dec \<Rightarrow> Dec \<Rightarrow> ArithmeticError + Dec" where
  "GetNextSqrtPriceFromAmount1InRoundingDown =
     getNextSqrtPriceFromAmount1InRoundingDown PrecisionReuse"

definition CalcAmount0DeltaBigDec ::
  "BigDec \<Rightarrow> BigDec \<Rightarrow> BigDec \<Rightarrow> bool \<Rightarrow> ArithmeticError + BigDec" where
  "CalcAmount0DeltaBigDec = calcAmount0Delta BigDecPrecisionReuse"

definition GetNextSqrtPriceFromAmount1InRoundingDownBigDec ::
  "BigDec \<Rightarrow> BigDec \<Rightarrow> BigDec \<Rightarrow> ArithmeticError + BigDec" where
  "GetNextSqrtPriceFromAmount1InRoundingDownBigDec =
     getNextSqrtPriceFromAmount1InRoundingDown BigDecPrecisionReuse"

section \<open>The one-for-zero (price-increasing) swap strategy\<close>

record oneForZeroStrategy =
  sqrtPriceLimit :: Dec
  storeKey :: string
  spreadFactor :: Dec

text \<open>
  \<open>GetSqrtTargetPrice\<close>, one_for_zero.go lines 32-37: the limit is returned when the
  next-tick square-root price is greater than the limit, the next-tick price otherwise.
\<close>

definition GetSqrtTargetPrice :: "oneForZeroStrategy \<Rightarrow> Dec \<Rightarrow> Dec" where
  "GetSqrtTargetPrice s nextTickSqrtPrice =
     (if nextTickSqrtPrice > sqrtPriceLimit s then sqrtPriceLimit s
      else nextTickSqrtPrice)"

text \<open>
  \<open>ValidateSqrtPrice\<close>, lines 262-268. The Go function returns an \<open>error\<close>, \<open>nil\<close>
  when the price is accepted: \<open>None\<close> here. The constant \<open>types.MaxSqrtPrice\<close> is
  declared in another package, not among the modelled files, and is the first argument.
\<close>

datatype types_error =
  SqrtPriceValidationError (SqrtPriceLimit: Dec) (LowerBound: Dec) (UpperBound: Dec)

definition ValidateSqrtPrice ::
  "Dec \<Rightarrow> oneForZeroStrategy \<Rightarrow> Dec \<Rightarrow> Dec \<Rightarrow> types_error option" where
  "ValidateSqrtPrice MaxSqrtPrice s sqrtPrice currentSqrtPrice =
     (if sqrtPrice < currentSqrtPrice \<or> sqrtPrice > MaxSqrtPrice
      then Some (SqrtPriceValidationError sqrtPrice currentSqrtPrice MaxSqrtPrice)
      else None)"

text \<open>
  \<open>ComputeSwapWithinBucketOutGivenIn\<close>, lines 58-113. The four returned decimals are
  the fields of \<open>SwapStep\<close>, in the order of the Go return.

  \<open>hasReachedTarget := sqrtPriceTarget == sqrtPriceNext\<close> compares two \<open>sdk.Dec\<close>
  structs with Go's \<open>==\<close>. The struct has one field, a pointer to the big integer, so
  \<open>==\<close> is true exactly when both are the same object: when \<open>sqrtPriceNext\<close> was
  assigned from \<open>sqrtPriceTarget\<close> on line 69. The price computed on line 72 is a new
  object, never the target's, whatever its value. So \<open>hasReachedTarget\<close> is the
  condition of the \<open>if\<close> on line 68. (Lemma \<open>not_reached_below_target\<close> shows that
  for positive liquidity a price computed on line 72 is never as high as the target, so
  comparing the values gives the same answer there.)

  \<open>computeSpreadRewardChargePerSwapStepOutGivenIn\<close> is defined in another file, not
  among the modelled ones, and no result below depends on it: it is the first argument.
  The four \<open>fmt.Println\<close> calls of lines 107-110 print and change nothing. An
  \<open>ArithmeticError\<close> of a callee ends the step, as the panic of the library would.
\<close>

record SwapStep =
  sqrtPriceNext :: Dec
  amountOneIn :: Dec
  amountZeroOut :: Dec
  spreadRewardChargeTotal :: Dec

definition amountOneInRemainingLessSpreadReward :: "oneForZeroStrategy \<Rightarrow> Dec \<Rightarrow> Dec" where
  "amountOneInRemainingLessSpreadReward s amountOneInRemaining =
     Mul amountOneInRemaining (OneDec - spreadFactor s)"

definition ComputeSwapWithinBucketOutGivenIn ::
  "(bool \<Rightarrow> Dec \<Rightarrow> Dec \<Rightarrow> Dec \<Rightarrow> Dec) \<Rightarrow> oneForZeroStrategy
     \<Rightarrow> Dec \<Rightarrow> Dec \<Rightarrow> Dec \<Rightarrow> Dec \<Rightarrow> ArithmeticError + SwapStep" where
  "ComputeSwapWithinBucketOutGivenIn computeSpreadRewardChargePerSwapStepOutGivenIn s
       sqrtPriceCurrent sqrtPriceTarget liquidity amountOneInRemaining =
     (let amountOneIn0 = CalcAmount1Delta liquidity sqrtPriceTarget sqrtPriceCurrent True;
          lessSpreadReward = amountOneInRemainingLessSpreadReward s amountOneInRemaining;
          hasReachedTarget = (lessSpreadReward \<ge> amountOneIn0)
      in case (if hasReachedTarget then Inr sqrtPriceTarget
               else GetNextSqrtPriceFromAmount1InRoundingDown
                      sqrtPriceCurrent liquidity lessSpreadReward) of
           Inl e \<Rightarrow> Inl e
         | Inr sqrtPriceNext1 \<Rightarrow>
           (let amountOneIn1 =
                  (if \<not> hasReachedTarget
                   then CalcAmount1Delta liquidity sqrtPriceNext1 sqrtPriceCurrent True
                   else amountOneIn0)
            in case CalcAmount0Delta liquidity sqrtPriceNext1 sqrtPriceCurrent False of
                 Inl e \<Rightarrow> Inl e
               | Inr amountZeroOut1 \<Rightarrow>
                 (case (if \<not> hasReachedTarget \<and> sqrtPriceCurrent = sqrtPriceNext1
                           \<and> amountOneIn1 = 0 \<and> amountOneInRemaining \<noteq> 0
                        then (let liquidityBigDec = BigDecFromSDKDec liquidity;
                                  sqrtPriceCurrentBigDec = BigDecFromSDKDec sqrtPriceCurrent
                              in case GetNextSqrtPriceFromAmount1InRoundingDownBigDec
                                        sqrtPriceCurrentBigDec liquidityBigDec
                                        (BigDecFromSDKDec amountOneInRemaining) of
                                   Inl e \<Rightarrow> Inl e
                                 | Inr sqrtPriceNextBigDec \<Rightarrow>
                                   (case CalcAmount0DeltaBigDec liquidityBigDec
                                           sqrtPriceNextBigDec sqrtPriceCurrentBigDec False of
                                      Inl e \<Rightarrow> Inl e
                                    | Inr z \<Rightarrow> Inr (amountOneInRemaining, SDKDec z)))
                        else Inr (amountOneIn1, amountZeroOut1)) of
                    Inl e \<Rightarrow> Inl e
                  | Inr (amountOneIn2, amountZeroOut2) \<Rightarrow>
                    Inr \<lparr>sqrtPriceNext = sqrtPriceNext1,
                         amountOneIn = amountOneIn2,
                         amountZeroOut = amountZeroOut2,
                         spreadRewardChargeTotal =
                           computeSpreadRewardChargePerSwapStepOutGivenIn hasReachedTarget
                             amountOneIn2 amountOneInRemaining (spreadFactor s)\<rparr>)))"

section \<open>The next-tick iterator\<close>

text \<open>
  A Go call either returns or panics; \<open>Panic\<close> carries the value passed to \<open>panic\<close>.
\<close>

datatype ('p, 'a) outcome = Return 'a | Panic 'p

type_synonym bytes = "8 word list"

text \<open>
  The store of the tick module is an ordered key-value store (cosmos-sdk, tm-db). The
  model holds, for each pool, the entries stored under the pool's tick prefix, the prefix
  removed as \<open>prefix.NewStore\<close> does. An iterator is the list of entries it has still
  to visit: it is valid while the list is not empty, its key is the key of the first
  entry, \<open>Next\<close> drops the first entry. \<open>Iterator(start, nil)\<close> visits the entries
  whose key is at least \<open>start\<close>, in ascending order of the keys compared as byte
  strings.
\<close>

type_synonym 'v Iterator = "(bytes \<times> 'v) list"

definition Valid :: "'v Iterator \<Rightarrow> bool" where
  "Valid iter = (iter \<noteq> [])"

definition Key :: "'v Iterator \<Rightarrow> bytes" where
  "Key iter = fst (hd iter)"

definition prefixStore_Iterator :: "bytes \<Rightarrow> (bytes \<times> 'v) list \<Rightarrow> 'v Iterator" where
  "prefixStore_Iterator start kvs = sort_key fst (filter (\<lambda>kv. start \<le> fst kv) kvs)"

text \<open>
  \<open>InitializeNextTickIterator\<close>, lines 205-226. \<open>types.TickIndexToBytes\<close> and
  \<open>types.TickIndexFromBytes\<close> are defined in another package, not among the modelled
  files, and are the first two arguments. The loop of lines 212-224 is
  \<open>nextTickLoop\<close>; on a key that does not decode the Go code closes the iterator and
  panics with the key and the decode error. A tick index is an \<open>int64\<close>; the loop
  only compares tick indexes.
\<close>

datatype 'e tick_panic = InvalidTickIndex bytes 'e

fun nextTickLoop ::
  "(bytes \<Rightarrow> 'e + int) \<Rightarrow> int \<Rightarrow> 'v Iterator \<Rightarrow> ('e tick_panic, 'v Iterator) outcome" where
  "nextTickLoop TickIndexFromBytes currentTickIndex [] = Return []"
| "nextTickLoop TickIndexFromBytes currentTickIndex (kv # rest) =
     (case TickIndexFromBytes (fst kv) of
        Inl err \<Rightarrow> Panic (InvalidTickIndex (fst kv) err)
      | Inr tick \<Rightarrow>
          if tick > currentTickIndex then Return (kv # rest)
          else nextTickLoop TickIndexFromBytes currentTickIndex rest)"

definition InitializeNextTickIterator ::
  "(int \<Rightarrow> bytes) \<Rightarrow> (bytes \<Rightarrow> 'e + int) \<Rightarrow> (64 word \<Rightarrow> (bytes \<times> 'v) list)
     \<Rightarrow> 64 word \<Rightarrow> int \<Rightarrow> ('e tick_panic, 'v Iterator) outcome" where
  "InitializeNextTickIterator TickIndexToBytes TickIndexFromBytes ctx poolId currentTickIndex =
     (let prefixStore = ctx poolId;
          startKey = TickIndexToBytes currentTickIndex;
          iter = prefixStore_Iterator startKey prefixStore
      in nextTickLoop TickIndexFromBytes currentTickIndex iter)"

definition int64 :: "int \<Rightarrow> bool" where
  "int64 t \<longleftrightarrow> - (2 ^ 63) \<le> t \<and> t < 2 ^ 63"

text \<open>
  Modelled from the spec: the tick-key encoding \<open>TickIndexToBytes\<close> and its inverse
  \<open>TickIndexFromBytes\<close>, whose code is not among the modelled files. "Keys sort
  consistently with numeric tick order (negative ticks encoded so that lexicographic
  byte order matches numeric order, e.g. by flipping the sign bit of a fixed-width
  big-endian encoding)": eight bytes, big-endian, of the tick index with its sign bit
  flipped, that is of \<open>tick + 2 ^ 63\<close>. A key of another length does not decode.
\<close>

fun be_bytes :: "nat \<Rightarrow> int \<Rightarrow> bytes" where
  "be_bytes 0 n = []"
| "be_bytes (Suc k) n = of_int (n div 256 ^ k) # be_bytes k (n mod 256 ^ k)"

definition from_be :: "bytes \<Rightarrow> int" where
  "from_be bz = foldl (\<lambda>acc b. acc * 256 + uint b) 0 bz"

datatype TickDecodeError = InvalidTickIndexEncoding nat

definition TickIndexToBytes :: "int \<Rightarrow> bytes" where
  "TickIndexToBytes tickIndex = be_bytes 8 (tickIndex + 2 ^ 63)"

definition TickIndexFromBytes :: "bytes \<Rightarrow> TickDecodeError + int" where
  "TickIndexFromBytes bz =
     (if length bz \<noteq> 8 then Inl (InvalidTickIndexEncoding (length bz))
      else Inr (from_be bz - 2 ^ 63))"

section \<open>Positions\<close>

text \<open>
  \<open>UpdatePositionWithLiquidity\<close>, \<open>getPosition\<close> and \<open>setPosition\<close> (the keeper of
  the early concentrated-liquidity module). The struct \<open>Position\<close> is declared in
  another file, not among the modelled ones; the code reads and writes its field
  \<open>Liquidity\<close>, an \<open>sdk.Int\<close>, and the record is extensible, so every other field
  the struct may have is in its \<open>more\<close> part. \<open>types.KeyPosition\<close> is the first argument. The store maps a
  key to the position stored under it; \<open>osmoutils.MustGet\<close> does not return when the
  key is absent, which is the only panic of the model (\<open>sdk.Int\<close> is a big integer, and
  the library's panic on a sum beyond its bit bound is not modelled).
\<close>

record Position =
  Liquidity :: int

datatype store_panic = KeyNotFound

definition getPosition ::
  "(64 word \<Rightarrow> string \<Rightarrow> int \<Rightarrow> int \<Rightarrow> 'k) \<Rightarrow> ('k \<rightharpoonup> 'p) \<Rightarrow> 64 word \<Rightarrow> string
     \<Rightarrow> int \<Rightarrow> int \<Rightarrow> (store_panic, 'p) outcome" where
  "getPosition KeyPosition store poolId owner lowerTick upperTick =
     (case store (KeyPosition poolId owner lowerTick upperTick) of
        None \<Rightarrow> Panic KeyNotFound
      | Some position \<Rightarrow> Return position)"

definition setPosition ::
  "(64 word \<Rightarrow> string \<Rightarrow> int \<Rightarrow> int \<Rightarrow> 'k) \<Rightarrow> ('k \<rightharpoonup> 'p) \<Rightarrow> 64 word \<Rightarrow> string
     \<Rightarrow> int \<Rightarrow> int \<Rightarrow> 'p \<Rightarrow> ('k \<rightharpoonup> 'p)" where
  "setPosition KeyPosition store poolId owner lowerTick upperTick position =
     store(KeyPosition poolId owner lowerTick upperTick \<mapsto> position)"

definition UpdatePositionWithLiquidity ::
  "(64 word \<Rightarrow> string \<Rightarrow> int \<Rightarrow> int \<Rightarrow> 'k) \<Rightarrow> ('k \<rightharpoonup> 'a Position_scheme) \<Rightarrow> 64 word
     \<Rightarrow> string \<Rightarrow> int \<Rightarrow> int \<Rightarrow> int
     \<Rightarrow> (store_panic, 'k \<rightharpoonup> 'a Position_scheme) outcome" where
  "UpdatePositionWithLiquidity KeyPosition store poolId owner lowerTick upperTick liquidityDelta =
     (case getPosition KeyPosition store poolId owner lowerTick upperTick of
        Panic p \<Rightarrow> Panic p
      | Return position \<Rightarrow>
          (let liquidityBefore = Liquidity position;
               liquidityAfter = liquidityBefore + liquidityDelta;
               position' = position\<lparr>Liquidity := liquidityAfter\<rparr>
           in Return (setPosition KeyPosition store poolId owner lowerTick upperTick position')))"

section \<open>Adding an authenticator\<close>

text \<open>
  \<open>AddAuthenticator\<close> of the message server, msg_server.go lines 30-84. What it calls
  is defined elsewhere and gathered in \<open>deps\<close>: the address parser
  \<open>sdk.AccAddressFromBech32\<close>, the keeper's \<open>GetAuthenticatorsForAccount\<close> and
  \<open>AddAuthenticator\<close> (which reads, respectively returns, the authenticator store
  \<open>'s\<close>), the constant \<open>impl.SignatureVerificationAuthenticatorType\<close>, and the hash
  RIPEMD160 of SHA256 that turns a public key into an address. An error a callee
  returns is passed on unchanged (\<open>Callee\<close>); the three errors the function builds
  itself are the other constructors. The event emitted on success is a message event
  with the sender and the authenticator type as attributes.
\<close>

type_synonym AccAddress = bytes

record MsgAddAuthenticator =
  Sender :: string
  Type :: string
  Data :: bytes

record MsgAddAuthenticatorResponse =
  Success :: bool

datatype 'e msg_error =
    Callee 'e
  | FirstMustBeSignatureVerification
  | FirstMustBeAssociated AccAddress AccAddress
  | MaximumAuthenticatorsReached nat

datatype Event = MessageEvent string string

record 's Context =
  kvStore :: 's
  eventManager :: "Event list"

record ('s, 'a, 'e) deps =
  AccAddressFromBech32 :: "string \<Rightarrow> 'e + AccAddress"
  GetAuthenticatorsForAccount :: "'s \<Rightarrow> AccAddress \<Rightarrow> 'e + 'a list"
  KeeperAddAuthenticator :: "'s \<Rightarrow> AccAddress \<Rightarrow> string \<Rightarrow> bytes \<Rightarrow> 'e + 's"
  SignatureVerificationAuthenticatorType :: string
  ripemd160_sha256 :: "bytes \<Rightarrow> AccAddress"

text \<open>
  \<open>secp256k1.PubKey.Address\<close> of the cosmos-sdk library: it panics with
  "length of pubkey is incorrect" unless the key has \<open>PubKeySize = 33\<close> bytes, and
  otherwise returns the hash of the key.
\<close>

definition PubKeySize :: nat where
  "PubKeySize = 33"

definition PubKey_Address :: "(bytes \<Rightarrow> AccAddress) \<Rightarrow> bytes \<Rightarrow> (string, AccAddress) outcome" where
  "PubKey_Address hash key =
     (if length key \<noteq> PubKeySize then Panic ''length of pubkey is incorrect''
      else Return (hash key))"

definition AddAuthenticator ::
  "('s, 'a, 'e) deps \<Rightarrow> 's Context \<Rightarrow> MsgAddAuthenticator
     \<Rightarrow> (string, ('e msg_error + MsgAddAuthenticatorResponse) \<times> 's Context) outcome" where
  "AddAuthenticator d ctx msg =
     (case AccAddressFromBech32 d (Sender msg) of
        Inl err \<Rightarrow> Return (Inl (Callee err), ctx)
      | Inr sender \<Rightarrow>
     (case GetAuthenticatorsForAccount d (kvStore ctx) sender of
        Inl err \<Rightarrow> Return (Inl (Callee err), ctx)
      | Inr authenticators \<Rightarrow>
     if length authenticators = 0 \<and> Type msg \<noteq> SignatureVerificationAuthenticatorType d
     then Return (Inl FirstMustBeSignatureVerification, ctx)
     else
     (case (if length authenticators = 0
            then (case PubKey_Address (ripemd160_sha256 d) (Data msg) of
                    Panic p \<Rightarrow> Panic p
                  | Return newAccountPubKey \<Rightarrow>
                      if newAccountPubKey \<noteq> sender
                      then Return (Some (FirstMustBeAssociated sender newAccountPubKey))
                      else Return None)
            else Return None) of
        Panic p \<Rightarrow> Panic p
      | Return (Some err) \<Rightarrow> Return (Inl err, ctx)
      | Return None \<Rightarrow>
     if length authenticators \<ge> 15
     then Return (Inl (MaximumAuthenticatorsReached 15), ctx)
     else
     (case KeeperAddAuthenticator d (kvStore ctx) sender (Type msg) (Data msg) of
        Inl err \<Rightarrow> Return (Inl (Callee err), ctx)
      | Inr store' \<Rightarrow>
          Return (Inr \<lparr>Success = True\<rparr>,
                  ctx\<lparr>kvStore := store',
                      eventManager := eventManager ctx @ [MessageEvent (Sender msg) (Type msg)]\<rparr>)))))"

text \<open>
  The entries the loop steps over: those whose key decodes to a tick that is not greater
  than the current tick index.
\<close>

definition not_above :: "(bytes \<Rightarrow> 'e + int) \<Rightarrow> int \<Rightarrow> (bytes \<times> 'v) \<Rightarrow> bool" where
  "not_above dec c kv = (case dec (fst kv) of Inl _ \<Rightarrow> True | Inr t \<Rightarrow> \<not> c < t)"

text \<open>
  What the invariant of at most 15 authenticators needs of the keeper, whose code is
  not among the modelled files: the store holds a list of authenticators for each
  account, \<open>GetAuthenticatorsForAccount\<close> returns the list stored for the account when
  it returns one, and a successful \<open>AddAuthenticator\<close> of the keeper appends one
  authenticator to the list of the account it is called for and changes nothing else.
\<close>

definition keeper_appends :: "(AccAddress \<Rightarrow> 'a list, 'a, 'e) deps \<Rightarrow> bool" where
  "keeper_appends d \<longleftrightarrow>
     (\<forall>st a xs. GetAuthenticatorsForAccount d st a = Inr xs \<longrightarrow> xs = st a)
   \<and> (\<forall>st a t b st'. KeeperAddAuthenticator d st a t b = Inr st' \<longrightarrow>
          (\<exists>x. st' = st(a := st a @ [x])))"

definition at_most_15 :: "(AccAddress \<Rightarrow> 'a list) \<Rightarrow> bool" where
  "at_most_15 st \<longleftrightarrow> (\<forall>a. length (st a) \<le> 15)"

section \<open>Concrete inputs\<close>

text \<open>
  The inputs at which the theorems below are instantiated. The swap examples use a
  liquidity of 10 between the square-root prices 1 and 2; the spread-reward function,
  which no result depends on, is replaced by the constant 0.
\<close>

definition exampleStrategy :: "Dec \<Rightarrow> oneForZeroStrategy" where
  "exampleStrategy fee = \<lparr>sqrtPriceLimit = 2 * 10 ^ 18, storeKey = ''cl'', spreadFactor = fee\<rparr>"

definition noSpreadReward :: "bool \<Rightarrow> Dec \<Rightarrow> Dec \<Rightarrow> Dec \<Rightarrow> Dec" where
  "noSpreadReward hasReachedTarget amountIn amountSpecifiedRemaining fee = 0"

definition exampleTicks :: "64 word \<Rightarrow> (bytes \<times> string) list" where
  "exampleTicks poolId =
     (if poolId = 1
      then [(TickIndexToBytes 100, ''c''), (TickIndexToBytes (- 200), ''a''),
            (TickIndexToBytes 0, ''b''), (TickIndexToBytes 300, ''d'')]
      else [])"

definition corruptedTicks :: "64 word \<Rightarrow> (bytes \<times> string) list" where
  "corruptedTicks poolId =
     [(TickIndexToBytes 100, ''c''), ([0xFF], ''x''), (TickIndexToBytes 0, ''b'')]"

definition examplePositions :: "(64 word \<times> string \<times> int \<times> int) \<rightharpoonup> Position" where
  "examplePositions = [(1, ''alice'', - 100, 100) \<mapsto> \<lparr>Liquidity = 5\<rparr>]"

text \<open>
  A keeper whose store is the list of (type, data) pairs of each account, an address
  parser that knows two senders, and a stand-in for the hash (the first byte of the key).
\<close>

definition exampleDeps :: "(AccAddress \<Rightarrow> (string \<times> bytes) list, string \<times> bytes, string) deps" where
  "exampleDeps =
     \<lparr>AccAddressFromBech32 =
        (\<lambda>s. if s = ''alice'' then Inr [1] else if s = ''bob'' then Inr [2]
             else Inl ''decoding bech32 failed''),
      GetAuthenticatorsForAccount = (\<lambda>st a. Inr (st a)),
      KeeperAddAuthenticator = (\<lambda>st a t b. Inr (st(a := st a @ [(t, b)]))),
      SignatureVerificationAuthenticatorType = ''SignatureVerificationAuthenticator'',
      ripemd160_sha256 = take 1\<rparr>"

definition exampleContext :: "(AccAddress \<Rightarrow> (string \<times> bytes) list) Context" where
  "exampleContext =
     \<lparr>kvStore = (\<lambda>a. if a = [1] then replicate 15 (''SignatureVerificationAuthenticator'', [])
                      else []),
      eventManager = []\<rparr>"

section \<open>Rounding and the delta formulas\<close>

lemma PrecisionReuse_pos: "0 < PrecisionReuse"
  by (simp add: PrecisionReuse_def)

lemma quo_trunc_nonneg: "0 \<le> x \<Longrightarrow> 0 < y \<Longrightarrow> quo_trunc x y = x div y"
  by (cases "x = 0") (simp_all add: quo_trunc_def)

lemma quo_up_gt:
  assumes p: "0 < p" and a: "a < quo_up x p"
  shows "a * p < x"
proof -
  define q where "q = (- x) div p"
  define r where "r = (- x) mod p"
  have "q + 1 \<le> - a"
    using a by (simp add: quo_up_def q_def)
  then have le: "(q + 1) * p \<le> (- a) * p"
    using p mult_right_mono [of "q + 1" "- a" p] by linarith
  have split: "- x = q * p + r"
    by (simp add: q_def r_def)
  have r: "r < p"
    using p by (simp add: r_def)
  have "(q + 1) * p = q * p + p"
    by (simp add: algebra_simps)
  with le split r have "- x < (- a) * p"
    by linarith
  then show ?thesis by simp
qed

lemma chop_nonneg: "0 \<le> d \<Longrightarrow> 0 \<le> chopPrecisionAndRound d"
  using PrecisionReuse_pos
  by (auto simp: chopPrecisionAndRound_def Let_def pos_imp_zdiv_nonneg_iff)

lemma lessSpread_nonneg:
  "0 \<le> r \<Longrightarrow> spreadFactor s \<le> OneDec \<Longrightarrow> 0 \<le> amountOneInRemainingLessSpreadReward s r"
  by (simp add: amountOneInRemainingLessSpreadReward_def Mul_def chop_nonneg)

lemma not_reached_below_target:
  assumes liq: "0 < liquidity" and a0: "0 \<le> a" and ct: "sqrtPriceCurrent \<le> sqrtPriceTarget"
    and lt: "a < CalcAmount1Delta liquidity sqrtPriceTarget sqrtPriceCurrent True"
    and nx: "GetNextSqrtPriceFromAmount1InRoundingDown sqrtPriceCurrent liquidity a = Inr n"
  shows "sqrtPriceCurrent \<le> n \<and> n < sqrtPriceTarget"
proof -
  let ?P = PrecisionReuse
  let ?D = "sqrtPriceTarget - sqrtPriceCurrent"
  have q: "n = sqrtPriceCurrent + (a * ?P) div liquidity"
    using nx liq a0 PrecisionReuse_pos
    by (auto simp: GetNextSqrtPriceFromAmount1InRoundingDown_def
        getNextSqrtPriceFromAmount1InRoundingDown_def quo_truncate_def quo_trunc_nonneg)
  have "a < quo_up (liquidity * ?D) ?P"
    using lt ct by (simp add: CalcAmount1Delta_def calcAmount1Delta_def mul_round_up_def)
  then have ap: "a * ?P < liquidity * ?D"
    using quo_up_gt PrecisionReuse_pos by blast
  have "a * ?P = ((a * ?P) div liquidity) * liquidity + (a * ?P) mod liquidity"
    by simp
  moreover have "0 \<le> (a * ?P) mod liquidity"
    using liq by simp
  ultimately have "((a * ?P) div liquidity) * liquidity \<le> a * ?P"
    by linarith
  then have "((a * ?P) div liquidity) * liquidity < ?D * liquidity"
    using ap by (simp add: mult.commute)
  then have "(a * ?P) div liquidity < ?D"
    using liq by (simp add: mult_less_cancel_right)
  moreover have "0 \<le> (a * ?P) div liquidity"
    using liq a0 PrecisionReuse_pos by (simp add: pos_imp_zdiv_nonneg_iff)
  ultimately show ?thesis using q by simp
qed


lemma BigDecPrecisionReuse_pos: "0 < BigDecPrecisionReuse"
  by (simp add: BigDecPrecisionReuse_def)

lemma BigDecFromSDKDec_pos: "0 < d \<Longrightarrow> 0 < BigDecFromSDKDec d"
  by (simp add: BigDecFromSDKDec_def BigDecPrecisionReuse_def PrecisionReuse_def)

lemma quo_up_pos: "0 < p \<Longrightarrow> 0 < x \<Longrightarrow> 0 < quo_up x p"
  by (simp add: quo_up_def pos_imp_zdiv_neg_iff)

lemma quo_up_zero: "quo_up 0 p = 0"
  by (simp add: quo_up_def)

lemma calcAmount1Delta_same: "calcAmount1Delta p liq c c True = 0"
  by (simp add: calcAmount1Delta_def mul_round_up_def quo_up_zero)

lemma calcAmount0Delta_returns:
  "0 < p \<Longrightarrow> 0 < a \<Longrightarrow> 0 < b \<Longrightarrow> \<exists>z. calcAmount0Delta p liq a b False = Inr z"
  using quo_up_pos [of p "a * b"]
  by (simp add: calcAmount0Delta_def quo_truncate_def mul_round_up_def)

lemma getNext_returns:
  "liq \<noteq> 0 \<Longrightarrow> \<exists>n. getNextSqrtPriceFromAmount1InRoundingDown p c liq a = Inr n"
  by (simp add: getNextSqrtPriceFromAmount1InRoundingDown_def quo_truncate_def)

lemma getNext_ge:
  assumes "0 < p" "0 < liq" "0 \<le> a"
    and "getNextSqrtPriceFromAmount1InRoundingDown p c liq a = Inr n"
  shows "c \<le> n"
proof -
  have "n = c + (a * p) div liq"
    using assms
    by (auto simp: getNextSqrtPriceFromAmount1InRoundingDown_def quo_truncate_def
        quo_trunc_nonneg)
  moreover have "0 \<le> (a * p) div liq"
    using assms by (simp add: pos_imp_zdiv_nonneg_iff)
  ultimately show ?thesis by simp
qed

lemma step_reached:
  assumes "CalcAmount1Delta liquidity sqrtPriceTarget sqrtPriceCurrent True
             \<le> amountOneInRemainingLessSpreadReward s amountOneInRemaining"
    and "ComputeSwapWithinBucketOutGivenIn fee s sqrtPriceCurrent sqrtPriceTarget
           liquidity amountOneInRemaining = Inr r"
  shows "sqrtPriceNext r = sqrtPriceTarget
       \<and> amountOneIn r = CalcAmount1Delta liquidity sqrtPriceTarget sqrtPriceCurrent True"
  using assms
  by (auto simp: ComputeSwapWithinBucketOutGivenIn_def Let_def split: sum.splits)

lemma step_reached_returns:
  assumes reach: "CalcAmount1Delta liquidity sqrtPriceTarget sqrtPriceCurrent True
                    \<le> amountOneInRemainingLessSpreadReward s amountOneInRemaining"
    and c: "0 < sqrtPriceCurrent" and t: "0 < sqrtPriceTarget"
  shows "\<exists>r. ComputeSwapWithinBucketOutGivenIn fee s sqrtPriceCurrent sqrtPriceTarget
               liquidity amountOneInRemaining = Inr r"
proof -
  obtain z where "CalcAmount0Delta liquidity sqrtPriceTarget sqrtPriceCurrent False = Inr z"
    using calcAmount0Delta_returns [OF PrecisionReuse_pos t c, of liquidity]
    by (auto simp: CalcAmount0Delta_def)
  with reach show ?thesis
    by (simp add: ComputeSwapWithinBucketOutGivenIn_def Let_def)
qed

lemma step_sqrtPriceNext:
  assumes "ComputeSwapWithinBucketOutGivenIn fee s sqrtPriceCurrent sqrtPriceTarget
             liquidity amountOneInRemaining = Inr r"
  shows "(CalcAmount1Delta liquidity sqrtPriceTarget sqrtPriceCurrent True
            \<le> amountOneInRemainingLessSpreadReward s amountOneInRemaining
          \<and> sqrtPriceNext r = sqrtPriceTarget)
       \<or> (amountOneInRemainingLessSpreadReward s amountOneInRemaining
            < CalcAmount1Delta liquidity sqrtPriceTarget sqrtPriceCurrent True
          \<and> GetNextSqrtPriceFromAmount1InRoundingDown sqrtPriceCurrent liquidity
               (amountOneInRemainingLessSpreadReward s amountOneInRemaining)
             = Inr (sqrtPriceNext r))"
  using assms
  by (auto simp: ComputeSwapWithinBucketOutGivenIn_def Let_def split: sum.splits if_splits)

lemma high_precision_returns:
  assumes c: "0 < sqrtPriceCurrent" and l: "0 < liquidity" and a: "0 \<le> amountOneInRemaining"
  shows "\<exists>nb z. GetNextSqrtPriceFromAmount1InRoundingDownBigDec
                  (BigDecFromSDKDec sqrtPriceCurrent) (BigDecFromSDKDec liquidity)
                  (BigDecFromSDKDec amountOneInRemaining) = Inr nb
              \<and> CalcAmount0DeltaBigDec (BigDecFromSDKDec liquidity) nb
                  (BigDecFromSDKDec sqrtPriceCurrent) False = Inr z"
proof -
  have lb: "0 < BigDecFromSDKDec liquidity" and cb: "0 < BigDecFromSDKDec sqrtPriceCurrent"
    using c l by (simp_all add: BigDecFromSDKDec_pos)
  have ab: "0 \<le> BigDecFromSDKDec amountOneInRemaining"
    using a by (simp add: BigDecFromSDKDec_def BigDecPrecisionReuse_def PrecisionReuse_def)
  obtain nb where nb: "getNextSqrtPriceFromAmount1InRoundingDown BigDecPrecisionReuse
                         (BigDecFromSDKDec sqrtPriceCurrent) (BigDecFromSDKDec liquidity)
                         (BigDecFromSDKDec amountOneInRemaining) = Inr nb"
    using getNext_returns [of "BigDecFromSDKDec liquidity"] lb by fastforce
  have "BigDecFromSDKDec sqrtPriceCurrent \<le> nb"
    using getNext_ge [OF BigDecPrecisionReuse_pos lb ab nb] .
  then have "0 < nb" using cb by simp
  then obtain z where "calcAmount0Delta BigDecPrecisionReuse (BigDecFromSDKDec liquidity) nb
                         (BigDecFromSDKDec sqrtPriceCurrent) False = Inr z"
    using calcAmount0Delta_returns [OF BigDecPrecisionReuse_pos _ cb] by blast
  with nb show ?thesis
    by (auto simp: GetNextSqrtPriceFromAmount1InRoundingDownBigDec_def CalcAmount0DeltaBigDec_def)
qed

lemma step_returns:
  assumes c: "0 < sqrtPriceCurrent" and ct: "sqrtPriceCurrent \<le> sqrtPriceTarget"
    and l: "0 < liquidity" and a: "0 \<le> amountOneInRemaining"
    and sf: "spreadFactor s \<le> OneDec"
  shows "\<exists>r. ComputeSwapWithinBucketOutGivenIn fee s sqrtPriceCurrent sqrtPriceTarget
               liquidity amountOneInRemaining = Inr r"
proof (cases "CalcAmount1Delta liquidity sqrtPriceTarget sqrtPriceCurrent True
                \<le> amountOneInRemainingLessSpreadReward s amountOneInRemaining")
  case True
  then show ?thesis
    using step_reached_returns [OF True c, of fee] c ct by simp
next
  case False
  let ?less = "amountOneInRemainingLessSpreadReward s amountOneInRemaining"
  have less0: "0 \<le> ?less" using a sf by (rule lessSpread_nonneg)
  obtain n where n: "GetNextSqrtPriceFromAmount1InRoundingDown sqrtPriceCurrent liquidity ?less = Inr n"
    using getNext_returns [of liquidity] l
    by (fastforce simp: GetNextSqrtPriceFromAmount1InRoundingDown_def)
  have "sqrtPriceCurrent \<le> n"
    using getNext_ge [OF PrecisionReuse_pos l less0] n
    by (simp add: GetNextSqrtPriceFromAmount1InRoundingDown_def)
  then have "0 < n" using c by simp
  then obtain z where z: "CalcAmount0Delta liquidity n sqrtPriceCurrent False = Inr z"
    using calcAmount0Delta_returns [OF PrecisionReuse_pos _ c]
    by (fastforce simp: CalcAmount0Delta_def)
  obtain nb zb where
    "GetNextSqrtPriceFromAmount1InRoundingDownBigDec
       (BigDecFromSDKDec sqrtPriceCurrent) (BigDecFromSDKDec liquidity)
       (BigDecFromSDKDec amountOneInRemaining) = Inr nb"
    "CalcAmount0DeltaBigDec (BigDecFromSDKDec liquidity) nb
       (BigDecFromSDKDec sqrtPriceCurrent) False = Inr zb"
    using high_precision_returns [OF c l a] by blast
  with False n z show ?thesis
    by (auto simp: ComputeSwapWithinBucketOutGivenIn_def Let_def)
qed

section \<open>The swap step within one bucket\<close>

text \<open>
  C3: when the remaining amount less the spread reward (\<open>amountOneInRemaining\<close> times one
  minus the spread factor) is at least the estimate of token one needed to reach the
  target, \<open>CalcAmount1Delta\<close> of the liquidity between target and current price rounded
  up, the step returns the target as next price and exactly that estimate as
  \<open>amountOneIn\<close>. The step does return when both prices are positive.
\<close>

theorem reached_target_consumes_estimate:
  assumes reach: "CalcAmount1Delta liquidity sqrtPriceTarget sqrtPriceCurrent True
                    \<le> amountOneInRemainingLessSpreadReward s amountOneInRemaining"
  shows "(\<forall>r. ComputeSwapWithinBucketOutGivenIn fee s sqrtPriceCurrent sqrtPriceTarget
                 liquidity amountOneInRemaining = Inr r \<longrightarrow>
              sqrtPriceNext r = sqrtPriceTarget
            \<and> amountOneIn r = CalcAmount1Delta liquidity sqrtPriceTarget sqrtPriceCurrent True)
       \<and> (0 < sqrtPriceCurrent \<and> 0 < sqrtPriceTarget \<longrightarrow>
            (\<exists>r. ComputeSwapWithinBucketOutGivenIn fee s sqrtPriceCurrent sqrtPriceTarget
                    liquidity amountOneInRemaining = Inr r))"
  using step_reached [OF reach] step_reached_returns [OF reach] by blast

theorem reached_target_consumes_estimate_witness:
  "CalcAmount1Delta (10 ^ 19) (2 * 10 ^ 18) (10 ^ 18) True
     \<le> amountOneInRemainingLessSpreadReward (exampleStrategy (10 ^ 16)) (30 * 10 ^ 18)
   \<and> (\<exists>r. ComputeSwapWithinBucketOutGivenIn noSpreadReward (exampleStrategy (10 ^ 16))
             (10 ^ 18) (2 * 10 ^ 18) (10 ^ 19) (30 * 10 ^ 18) = Inr r
          \<and> sqrtPriceNext r = 2 * 10 ^ 18
          \<and> amountOneIn r = 10 ^ 19)"
proof -
  have reach: "CalcAmount1Delta (10 ^ 19) (2 * 10 ^ 18) (10 ^ 18) True
     \<le> amountOneInRemainingLessSpreadReward (exampleStrategy (10 ^ 16)) (30 * 10 ^ 18)"
    by code_simp
  have est: "CalcAmount1Delta (10 ^ 19) (2 * 10 ^ 18) (10 ^ 18) True = 10 ^ 19"
    by code_simp
  have pos: "(0::int) < 10 ^ 18 \<and> (0::int) < 2 * 10 ^ 18"
    by simp
  from reached_target_consumes_estimate [OF reach, of noSpreadReward] pos est reach
  show ?thesis by metis
qed

text \<open>
  C2, as stated: for every call with \<open>sqrtPriceCurrent \<le> sqrtPriceTarget\<close>, positive
  liquidity and a non-negative remaining amount, the returned \<open>sqrtPriceNext\<close> is at
  least the current price. It is not when the spread factor of the strategy is greater
  than one: with a spread factor of 2, a liquidity of 10 and 3 remaining, the amount less
  the spread reward is -3 and the step from price 1 towards 2 returns the price 0.7.
\<close>

theorem sqrtPriceNext_below_current_counterexample:
  "(10 ^ 18 :: int) \<le> 2 * 10 ^ 18 \<and> (0 :: int) < 10 ^ 19 \<and> (0 :: int) \<le> 3 * 10 ^ 18
   \<and> ComputeSwapWithinBucketOutGivenIn noSpreadReward (exampleStrategy (2 * 10 ^ 18))
       (10 ^ 18) (2 * 10 ^ 18) (10 ^ 19) (3 * 10 ^ 18)
     = Inr \<lparr>sqrtPriceNext = 7 * 10 ^ 17, amountOneIn = 3 * 10 ^ 18,
            amountZeroOut = 4285714285714285714, spreadRewardChargeTotal = 0\<rparr>
   \<and> (7 * 10 ^ 17 :: int) < 10 ^ 18"
  by code_simp

text \<open>
  C2, amended (the delta formulas are modelled from the spec): for a call with
  \<open>sqrtPriceCurrent \<le> sqrtPriceTarget\<close>, positive liquidity and a non-negative
  remaining amount, made by a strategy whose spread factor does not exceed one (the data
  model puts the fee rate in [0, 1)), every returned \<open>sqrtPriceNext\<close> lies between the
  current and the target price. The step does return when the current price is positive.
  The upper bound rests on the estimate of the amount needed to reach the target being
  rounded up at the last digit and no further: a remaining amount below the estimate is
  then below the exact amount as well.
\<close>

theorem sqrtPriceNext_between_current_and_target:
  assumes ct: "sqrtPriceCurrent \<le> sqrtPriceTarget"
    and l: "0 < liquidity" and a: "0 \<le> amountOneInRemaining"
    and sf: "spreadFactor s \<le> OneDec"
  shows "(\<forall>r. ComputeSwapWithinBucketOutGivenIn fee s sqrtPriceCurrent sqrtPriceTarget
                 liquidity amountOneInRemaining = Inr r \<longrightarrow>
              sqrtPriceCurrent \<le> sqrtPriceNext r \<and> sqrtPriceNext r \<le> sqrtPriceTarget)
       \<and> (0 < sqrtPriceCurrent \<longrightarrow>
            (\<exists>r. ComputeSwapWithinBucketOutGivenIn fee s sqrtPriceCurrent sqrtPriceTarget
                    liquidity amountOneInRemaining = Inr r))"
proof -
  have less0: "0 \<le> amountOneInRemainingLessSpreadReward s amountOneInRemaining"
    using a sf by (rule lessSpread_nonneg)
  have bounds: "sqrtPriceCurrent \<le> sqrtPriceNext r \<and> sqrtPriceNext r \<le> sqrtPriceTarget"
    if r: "ComputeSwapWithinBucketOutGivenIn fee s sqrtPriceCurrent sqrtPriceTarget
             liquidity amountOneInRemaining = Inr r" for r
    using step_sqrtPriceNext [OF r]
  proof
    assume "CalcAmount1Delta liquidity sqrtPriceTarget sqrtPriceCurrent True
              \<le> amountOneInRemainingLessSpreadReward s amountOneInRemaining
            \<and> sqrtPriceNext r = sqrtPriceTarget"
    then show ?thesis using ct by simp
  next
    assume "amountOneInRemainingLessSpreadReward s amountOneInRemaining
              < CalcAmount1Delta liquidity sqrtPriceTarget sqrtPriceCurrent True
            \<and> GetNextSqrtPriceFromAmount1InRoundingDown sqrtPriceCurrent liquidity
                 (amountOneInRemainingLessSpreadReward s amountOneInRemaining)
               = Inr (sqrtPriceNext r)"
    then show ?thesis
      using not_reached_below_target [OF l less0 ct] by fastforce
  qed
  have returns: "\<exists>r. ComputeSwapWithinBucketOutGivenIn fee s sqrtPriceCurrent sqrtPriceTarget
                    liquidity amountOneInRemaining = Inr r"
    if "0 < sqrtPriceCurrent"
    using step_returns [OF that ct l a sf] .
  show ?thesis
    using bounds returns by blast
qed

theorem sqrtPriceNext_between_current_and_target_witness:
  "(10 ^ 18 :: int) \<le> 2 * 10 ^ 18 \<and> (0::int) < 10 ^ 19 \<and> (0::int) \<le> 3 * 10 ^ 18
   \<and> spreadFactor (exampleStrategy (10 ^ 16)) \<le> OneDec
   \<and> (\<exists>r. ComputeSwapWithinBucketOutGivenIn noSpreadReward (exampleStrategy (10 ^ 16))
             (10 ^ 18) (2 * 10 ^ 18) (10 ^ 19) (3 * 10 ^ 18) = Inr r
          \<and> 10 ^ 18 \<le> sqrtPriceNext r \<and> sqrtPriceNext r \<le> 2 * 10 ^ 18)"
proof -
  have ct: "(10 ^ 18 :: int) \<le> 2 * 10 ^ 18" and l: "(0::int) < 10 ^ 19"
    and a: "(0::int) \<le> 3 * 10 ^ 18" and c: "(0::int) < 10 ^ 18"
    by simp_all
  have sf: "spreadFactor (exampleStrategy (10 ^ 16)) \<le> OneDec"
    by (simp add: exampleStrategy_def OneDec_def PrecisionReuse_def)
  from sqrtPriceNext_between_current_and_target [OF ct l a sf, of noSpreadReward] c ct l a sf
  show ?thesis by metis
qed

text \<open>
  The high-precision next price of the edge case, for positive liquidity and remaining
  amount: the current price plus the remaining amount over the liquidity, truncated at
  the last high-precision digit. It is above the current price exactly when the remaining
  amount is at least one part in \<open>10 ^ 36\<close> of the liquidity; a delta between equal
  prices is zero.
\<close>

lemma high_precision_next_price:
  assumes l: "0 < liquidity" and a: "0 < amountOneInRemaining"
    and nb: "GetNextSqrtPriceFromAmount1InRoundingDownBigDec (BigDecFromSDKDec sqrtPriceCurrent)
               (BigDecFromSDKDec liquidity) (BigDecFromSDKDec amountOneInRemaining) = Inr nb"
  shows "nb = BigDecFromSDKDec sqrtPriceCurrent
              + (amountOneInRemaining * BigDecPrecisionReuse) div liquidity"
proof -
  define K :: int where "K = BigDecPrecisionReuse div PrecisionReuse"
  have K: "0 < K"
    by (simp add: K_def BigDecPrecisionReuse_def PrecisionReuse_def)
  have lb: "0 < liquidity * K" using l K by simp
  have ab: "0 \<le> amountOneInRemaining * K * BigDecPrecisionReuse"
    using a K BigDecPrecisionReuse_pos by simp
  have "nb = BigDecFromSDKDec sqrtPriceCurrent
               + quo_trunc (amountOneInRemaining * K * BigDecPrecisionReuse) (liquidity * K)"
    using nb lb
    by (auto simp: GetNextSqrtPriceFromAmount1InRoundingDownBigDec_def
        getNextSqrtPriceFromAmount1InRoundingDown_def quo_truncate_def BigDecFromSDKDec_def
        K_def [symmetric] split: if_splits)
  also have "quo_trunc (amountOneInRemaining * K * BigDecPrecisionReuse) (liquidity * K)
               = (amountOneInRemaining * K * BigDecPrecisionReuse) div (liquidity * K)"
    using quo_trunc_nonneg [OF ab lb] .
  also have "amountOneInRemaining * K * BigDecPrecisionReuse
               = (amountOneInRemaining * BigDecPrecisionReuse) * K"
    by (simp add: mult.commute mult.left_commute)
  also have "((amountOneInRemaining * BigDecPrecisionReuse) * K) div (liquidity * K)
               = (amountOneInRemaining * BigDecPrecisionReuse) div liquidity"
    using K by simp
  finally show ?thesis .
qed

lemma high_precision_price_moves_iff:
  assumes l: "0 < liquidity" and a: "0 < amountOneInRemaining"
    and nb: "GetNextSqrtPriceFromAmount1InRoundingDownBigDec (BigDecFromSDKDec sqrtPriceCurrent)
               (BigDecFromSDKDec liquidity) (BigDecFromSDKDec amountOneInRemaining) = Inr nb"
  shows "BigDecFromSDKDec sqrtPriceCurrent \<le> nb
       \<and> (BigDecFromSDKDec sqrtPriceCurrent < nb
            \<longleftrightarrow> liquidity \<le> amountOneInRemaining * BigDecPrecisionReuse)"
proof -
  have nn: "0 \<le> amountOneInRemaining * BigDecPrecisionReuse"
    using a BigDecPrecisionReuse_pos by simp
  have "0 \<le> (amountOneInRemaining * BigDecPrecisionReuse) div liquidity"
    using l nn by (simp add: pos_imp_zdiv_nonneg_iff)
  moreover have "(0 < (amountOneInRemaining * BigDecPrecisionReuse) div liquidity)
                   = (liquidity \<le> amountOneInRemaining * BigDecPrecisionReuse)"
    using l by (rule pos_imp_zdiv_pos_iff)
  ultimately show ?thesis
    using high_precision_next_price [OF l a nb] by simp
qed

lemma unmoved_pays_nothing:
  "CalcAmount0DeltaBigDec l c c False = Inr z \<Longrightarrow> SDKDec z = 0"
  by (auto simp: CalcAmount0DeltaBigDec_def calcAmount0Delta_def quo_truncate_def
      mul_trunc_def quo_trunc_def SDKDec_def split: if_splits)

text \<open>
  C1, as stated: in the edge case the counter amount is recomputed from a nonzero
  high-precision intermediate price, one that has moved off the current price where the
  standard-precision price had not. It need not have: with a liquidity of \<open>10 ^ 19\<close>
  and a remaining amount of \<open>10 ^ -18\<close> (one raw unit), all four conditions of the edge
  case hold, and the high-precision next price is the current price again. The step
  charges the remaining amount and pays out nothing.
\<close>

theorem precision_loss_price_unmoved_counterexample:
  "amountOneInRemainingLessSpreadReward (exampleStrategy 0) 1
     < CalcAmount1Delta (10 ^ 37) (2 * 10 ^ 18) (10 ^ 18) True
   \<and> GetNextSqrtPriceFromAmount1InRoundingDown (10 ^ 18) (10 ^ 37)
       (amountOneInRemainingLessSpreadReward (exampleStrategy 0) 1) = Inr (10 ^ 18)
   \<and> CalcAmount0Delta (10 ^ 37) (10 ^ 18) (10 ^ 18) False = Inr 0
   \<and> (1 :: int) \<noteq> 0
   \<and> GetNextSqrtPriceFromAmount1InRoundingDownBigDec
       (BigDecFromSDKDec (10 ^ 18)) (BigDecFromSDKDec (10 ^ 37)) (BigDecFromSDKDec 1)
     = Inr (BigDecFromSDKDec (10 ^ 18))
   \<and> ComputeSwapWithinBucketOutGivenIn noSpreadReward (exampleStrategy 0)
       (10 ^ 18) (2 * 10 ^ 18) (10 ^ 37) 1
     = Inr \<lparr>sqrtPriceNext = 10 ^ 18, amountOneIn = 1, amountZeroOut = 0,
            spreadRewardChargeTotal = 0\<rparr>"
  by code_simp

text \<open>
  C1, amended: when the target is not reached (the remaining amount less the spread
  reward is below the estimate), the intermediate price computed from it rounds down to
  exactly the current price, the counter amount of token zero computes to zero, and the
  remaining amount is not zero, then every result of the step charges the whole remaining
  amount: \<open>amountOneIn\<close> is \<open>amountOneInRemaining\<close>. The price returned is still the
  current price, and \<open>amountZeroOut\<close> is the high-precision delta, truncated, between
  the current price and the high-precision next price. For positive liquidity and
  remaining amount that price is never below the current price; it is above it exactly
  when the remaining amount times \<open>10 ^ 36\<close> is at least the liquidity, and when it
  equals the current price \<open>amountZeroOut\<close> is zero. The step does return when price,
  liquidity and remaining amount are positive.
\<close>

theorem precision_loss_charges_remaining:
  assumes nr: "amountOneInRemainingLessSpreadReward s amountOneInRemaining
                 < CalcAmount1Delta liquidity sqrtPriceTarget sqrtPriceCurrent True"
    and same: "GetNextSqrtPriceFromAmount1InRoundingDown sqrtPriceCurrent liquidity
                 (amountOneInRemainingLessSpreadReward s amountOneInRemaining)
               = Inr sqrtPriceCurrent"
    and zero: "CalcAmount0Delta liquidity sqrtPriceCurrent sqrtPriceCurrent False = Inr 0"
    and rem: "amountOneInRemaining \<noteq> 0"
  shows "(\<forall>r. ComputeSwapWithinBucketOutGivenIn fee s sqrtPriceCurrent sqrtPriceTarget
                 liquidity amountOneInRemaining = Inr r \<longrightarrow>
              amountOneIn r = amountOneInRemaining
            \<and> sqrtPriceNext r = sqrtPriceCurrent
            \<and> (\<exists>sqrtPriceNextBigDec z.
                  GetNextSqrtPriceFromAmount1InRoundingDownBigDec
                    (BigDecFromSDKDec sqrtPriceCurrent) (BigDecFromSDKDec liquidity)
                    (BigDecFromSDKDec amountOneInRemaining) = Inr sqrtPriceNextBigDec
                \<and> CalcAmount0DeltaBigDec (BigDecFromSDKDec liquidity) sqrtPriceNextBigDec
                    (BigDecFromSDKDec sqrtPriceCurrent) False = Inr z
                \<and> amountZeroOut r = SDKDec z
                \<and> (0 < liquidity \<and> 0 < amountOneInRemaining \<longrightarrow>
                       BigDecFromSDKDec sqrtPriceCurrent \<le> sqrtPriceNextBigDec
                     \<and> (BigDecFromSDKDec sqrtPriceCurrent < sqrtPriceNextBigDec
                          \<longleftrightarrow> liquidity \<le> amountOneInRemaining * BigDecPrecisionReuse)
                     \<and> (sqrtPriceNextBigDec = BigDecFromSDKDec sqrtPriceCurrent
                          \<longrightarrow> amountZeroOut r = 0))))
       \<and> (0 < sqrtPriceCurrent \<and> 0 < liquidity \<and> 0 < amountOneInRemaining \<longrightarrow>
            (\<exists>r. ComputeSwapWithinBucketOutGivenIn fee s sqrtPriceCurrent sqrtPriceTarget
                    liquidity amountOneInRemaining = Inr r))"
proof -
  have est0: "CalcAmount1Delta liquidity sqrtPriceCurrent sqrtPriceCurrent True = 0"
    by (simp add: CalcAmount1Delta_def calcAmount1Delta_same)
  have base: "amountOneIn r = amountOneInRemaining
            \<and> sqrtPriceNext r = sqrtPriceCurrent
            \<and> (\<exists>nb z.
                  GetNextSqrtPriceFromAmount1InRoundingDownBigDec
                    (BigDecFromSDKDec sqrtPriceCurrent) (BigDecFromSDKDec liquidity)
                    (BigDecFromSDKDec amountOneInRemaining) = Inr nb
                \<and> CalcAmount0DeltaBigDec (BigDecFromSDKDec liquidity) nb
                    (BigDecFromSDKDec sqrtPriceCurrent) False = Inr z
                \<and> amountZeroOut r = SDKDec z)"
    if r: "ComputeSwapWithinBucketOutGivenIn fee s sqrtPriceCurrent sqrtPriceTarget
             liquidity amountOneInRemaining = Inr r" for r
    using r nr same zero rem est0
    by (auto simp: ComputeSwapWithinBucketOutGivenIn_def Let_def split: sum.splits)
  have first: "amountOneIn r = amountOneInRemaining
            \<and> sqrtPriceNext r = sqrtPriceCurrent
            \<and> (\<exists>nb z.
                  GetNextSqrtPriceFromAmount1InRoundingDownBigDec
                    (BigDecFromSDKDec sqrtPriceCurrent) (BigDecFromSDKDec liquidity)
                    (BigDecFromSDKDec amountOneInRemaining) = Inr nb
                \<and> CalcAmount0DeltaBigDec (BigDecFromSDKDec liquidity) nb
                    (BigDecFromSDKDec sqrtPriceCurrent) False = Inr z
                \<and> amountZeroOut r = SDKDec z
                \<and> (0 < liquidity \<and> 0 < amountOneInRemaining \<longrightarrow>
                       BigDecFromSDKDec sqrtPriceCurrent \<le> nb
                     \<and> (BigDecFromSDKDec sqrtPriceCurrent < nb
                          \<longleftrightarrow> liquidity \<le> amountOneInRemaining * BigDecPrecisionReuse)
                     \<and> (nb = BigDecFromSDKDec sqrtPriceCurrent \<longrightarrow> amountZeroOut r = 0)))"
    if r: "ComputeSwapWithinBucketOutGivenIn fee s sqrtPriceCurrent sqrtPriceTarget
             liquidity amountOneInRemaining = Inr r" for r
  proof -
    from base [OF r] obtain nb z where
      charged: "amountOneIn r = amountOneInRemaining" "sqrtPriceNext r = sqrtPriceCurrent"
      and nb: "GetNextSqrtPriceFromAmount1InRoundingDownBigDec
                 (BigDecFromSDKDec sqrtPriceCurrent) (BigDecFromSDKDec liquidity)
                 (BigDecFromSDKDec amountOneInRemaining) = Inr nb"
      and z: "CalcAmount0DeltaBigDec (BigDecFromSDKDec liquidity) nb
                (BigDecFromSDKDec sqrtPriceCurrent) False = Inr z"
      and out: "amountZeroOut r = SDKDec z"
      by blast
    have moves: "BigDecFromSDKDec sqrtPriceCurrent \<le> nb
               \<and> (BigDecFromSDKDec sqrtPriceCurrent < nb
                    \<longleftrightarrow> liquidity \<le> amountOneInRemaining * BigDecPrecisionReuse)"
      if "0 < liquidity \<and> 0 < amountOneInRemaining"
      using high_precision_price_moves_iff [OF _ _ nb] that by blast
    have stays: "amountZeroOut r = 0" if "nb = BigDecFromSDKDec sqrtPriceCurrent"
      using unmoved_pays_nothing z out that by simp
    from charged nb z out moves stays show ?thesis by blast
  qed
  have second: "\<exists>r. ComputeSwapWithinBucketOutGivenIn fee s sqrtPriceCurrent sqrtPriceTarget
                    liquidity amountOneInRemaining = Inr r"
    if pos: "0 < sqrtPriceCurrent \<and> 0 < liquidity \<and> 0 < amountOneInRemaining"
  proof -
    obtain nb zb where
      "GetNextSqrtPriceFromAmount1InRoundingDownBigDec
         (BigDecFromSDKDec sqrtPriceCurrent) (BigDecFromSDKDec liquidity)
         (BigDecFromSDKDec amountOneInRemaining) = Inr nb"
      "CalcAmount0DeltaBigDec (BigDecFromSDKDec liquidity) nb
         (BigDecFromSDKDec sqrtPriceCurrent) False = Inr zb"
      using high_precision_returns [of sqrtPriceCurrent liquidity amountOneInRemaining] pos
      by auto
    with nr same zero rem est0 show ?thesis
      by (auto simp: ComputeSwapWithinBucketOutGivenIn_def Let_def)
  qed
  show ?thesis
    using first second by blast
qed

theorem precision_loss_charges_remaining_witness:
  "amountOneInRemainingLessSpreadReward (exampleStrategy 0) 5
     < CalcAmount1Delta (10 ^ 19) (2 * 10 ^ 18) (10 ^ 18) True
   \<and> GetNextSqrtPriceFromAmount1InRoundingDown (10 ^ 18) (10 ^ 19)
       (amountOneInRemainingLessSpreadReward (exampleStrategy 0) 5) = Inr (10 ^ 18)
   \<and> CalcAmount0Delta (10 ^ 19) (10 ^ 18) (10 ^ 18) False = Inr 0
   \<and> (5::int) \<noteq> 0
   \<and> (\<exists>r. ComputeSwapWithinBucketOutGivenIn noSpreadReward (exampleStrategy 0)
             (10 ^ 18) (2 * 10 ^ 18) (10 ^ 19) 5 = Inr r
          \<and> amountOneIn r = 5 \<and> sqrtPriceNext r = 10 ^ 18)"
proof -
  have nr: "amountOneInRemainingLessSpreadReward (exampleStrategy 0) 5
              < CalcAmount1Delta (10 ^ 19) (2 * 10 ^ 18) (10 ^ 18) True"
    by code_simp
  have same: "GetNextSqrtPriceFromAmount1InRoundingDown (10 ^ 18) (10 ^ 19)
                (amountOneInRemainingLessSpreadReward (exampleStrategy 0) 5) = Inr (10 ^ 18)"
    by code_simp
  have zero: "CalcAmount0Delta (10 ^ 19) (10 ^ 18) (10 ^ 18) False = Inr 0"
    by code_simp
  have rem: "(5::int) \<noteq> 0" by simp
  have pos: "(0::int) < 10 ^ 18 \<and> (0::int) < 10 ^ 19 \<and> (0::int) < 5" by simp
  note inst = precision_loss_charges_remaining [OF nr same zero rem, of noSpreadReward]
  from inst pos obtain r where
    r: "ComputeSwapWithinBucketOutGivenIn noSpreadReward (exampleStrategy 0)
          (10 ^ 18) (2 * 10 ^ 18) (10 ^ 19) 5 = Inr r"
    by blast
  with inst have "amountOneIn r = 5 \<and> sqrtPriceNext r = 10 ^ 18"
    by blast
  with r nr same zero rem show ?thesis by blast
qed

text \<open>
  The step of the witness above, evaluated: 5 units charged, 4 units paid out, from a
  high-precision price that has moved.
\<close>

lemma precision_loss_example:
  "ComputeSwapWithinBucketOutGivenIn noSpreadReward (exampleStrategy 0)
     (10 ^ 18) (2 * 10 ^ 18) (10 ^ 19) 5
   = Inr \<lparr>sqrtPriceNext = 10 ^ 18, amountOneIn = 5, amountZeroOut = 4,
          spreadRewardChargeTotal = 0\<rparr>"
  by code_simp

section \<open>Target price and price-limit validation\<close>

text \<open>
  C4, as stated: the target price is the max of the next-tick price and the price limit.
  It is not: with a limit of 1 and a next-tick price of 2 the target is 1.
\<close>

theorem GetSqrtTargetPrice_max_counterexample:
  "GetSqrtTargetPrice \<lparr>sqrtPriceLimit = 1 * 10 ^ 18, storeKey = ''cl'', spreadFactor = 0\<rparr>
       (2 * 10 ^ 18)
     \<noteq> max (2 * 10 ^ 18) (1 * 10 ^ 18)"
  by (simp add: GetSqrtTargetPrice_def)

text \<open>
  C4, amended: for every next-tick square-root price, the target price is the min of the
  next-tick price and the strategy's price limit; it exceeds neither of them.
\<close>

theorem GetSqrtTargetPrice_min:
  "GetSqrtTargetPrice s nextTickSqrtPrice = min nextTickSqrtPrice (sqrtPriceLimit s)
   \<and> GetSqrtTargetPrice s nextTickSqrtPrice \<le> nextTickSqrtPrice
   \<and> GetSqrtTargetPrice s nextTickSqrtPrice \<le> sqrtPriceLimit s"
  by (simp add: GetSqrtTargetPrice_def min_def)

text \<open>
  C5: \<open>ValidateSqrtPrice\<close> accepts the limit exactly when
  \<open>current \<le> limit \<le> MaxSqrtPrice\<close>; for every other limit it returns the
  \<open>SqrtPriceValidationError\<close> carrying the limit and the two bounds.
\<close>

theorem ValidateSqrtPrice_ok_iff:
  "(ValidateSqrtPrice MaxSqrtPrice s limit current = None
      \<longleftrightarrow> current \<le> limit \<and> limit \<le> MaxSqrtPrice)
   \<and> (limit < current \<or> limit > MaxSqrtPrice \<longrightarrow>
        ValidateSqrtPrice MaxSqrtPrice s limit current
          = Some (SqrtPriceValidationError limit current MaxSqrtPrice))"
  by (auto simp: ValidateSqrtPrice_def)

theorem ValidateSqrtPrice_ok_iff_witness:
  "ValidateSqrtPrice (10 ^ 37) \<lparr>sqrtPriceLimit = 3 * 10 ^ 18, storeKey = ''cl'', spreadFactor = 0\<rparr>
       (3 * 10 ^ 18) (2 * 10 ^ 18) = None
   \<and> (1 * 10 ^ 18 < (2 * 10 ^ 18 :: int) \<and>
      ValidateSqrtPrice (10 ^ 37) \<lparr>sqrtPriceLimit = 1 * 10 ^ 18, storeKey = ''cl'', spreadFactor = 0\<rparr>
       (1 * 10 ^ 18) (2 * 10 ^ 18)
     = Some (SqrtPriceValidationError (1 * 10 ^ 18) (2 * 10 ^ 18) (10 ^ 37)))"
  using ValidateSqrtPrice_ok_iff [of "10 ^ 37" _ "3 * 10 ^ 18" "2 * 10 ^ 18"]
        ValidateSqrtPrice_ok_iff [of "10 ^ 37" _ "1 * 10 ^ 18" "2 * 10 ^ 18"]
  by simp
section \<open>The next-tick iterator: the loop\<close>

lemma nextTickLoop_dropWhile:
  "\<forall>kv\<in>set xs. \<exists>t. dec (fst kv) = Inr t \<Longrightarrow>
     nextTickLoop dec c xs = Return (dropWhile (not_above dec c) xs)"
  by (induction xs) (auto simp: not_above_def)

lemma nextTickLoop_panics:
  "\<forall>kv\<in>set pre. \<exists>t. dec (fst kv) = Inr t \<and> t \<le> c \<Longrightarrow> dec k = Inl e \<Longrightarrow>
     nextTickLoop dec c (pre @ (k, v) # post) = Panic (InvalidTickIndex k e)"
  by (induction pre) auto

lemma sorted_first_is_least:
  "sorted (map fst xs) \<Longrightarrow> kv \<in> set xs \<Longrightarrow> \<not> P kv \<Longrightarrow>
     fst (hd (dropWhile P xs)) \<le> fst kv"
proof (induction xs)
  case Nil
  then show ?case by simp
next
  case (Cons x xs)
  show ?case
  proof (cases "P x")
    case True
    with Cons.prems have "kv \<in> set xs" by auto
    with Cons True show ?thesis by simp
  next
    case False
    with Cons.prems show ?thesis by auto
  qed
qed


lemma set_prefixStore_Iterator:
  "set (prefixStore_Iterator start kvs) = {kv \<in> set kvs. start \<le> fst kv}"
  by (auto simp: prefixStore_Iterator_def)

lemma sorted_prefixStore_Iterator:
  "sorted (map fst (prefixStore_Iterator start kvs))"
  by (simp add: prefixStore_Iterator_def)

lemma nextTickLoop_stops:
  "\<forall>kv\<in>set pre. \<exists>t. dec (fst kv) = Inr t \<and> t \<le> c \<Longrightarrow> dec k = Inr tick \<Longrightarrow> c < tick \<Longrightarrow>
     nextTickLoop dec c (pre @ (k, v) # post) = Return ((k, v) # post)"
  by (induction pre) auto

section \<open>The tick-key encoding preserves the order of ticks\<close>

lemma byte_of_int_less:
  "0 \<le> a \<Longrightarrow> a < 256 \<Longrightarrow> 0 \<le> b \<Longrightarrow> b < 256 \<Longrightarrow> ((of_int a :: 8 word) < of_int b) = (a < b)"
  by (simp add: word_of_int_less_iff take_bit_int_eq_self)

lemma byte_of_int_eq:
  "0 \<le> a \<Longrightarrow> a < 256 \<Longrightarrow> 0 \<le> b \<Longrightarrow> b < 256 \<Longrightarrow> ((of_int a :: 8 word) = of_int b) = (a = b)"
  by (simp add: word_of_int_eq_iff take_bit_int_eq_self)

lemma uint_byte_of_int: "0 \<le> a \<Longrightarrow> a < 256 \<Longrightarrow> uint (of_int a :: 8 word) = a"
  by (simp add: unsigned_of_int take_bit_int_eq_self)

lemma div_mod_less_iff:
  fixes n m q :: int
  assumes q: "0 < q"
  shows "(n < m) = (n div q < m div q \<or> (n div q = m div q \<and> n mod q < m mod q))"
proof -
  define a b r r' where "a = n div q" and "b = m div q" and "r = n mod q" and "r' = m mod q"
  have n: "n = a * q + r" and m: "m = b * q + r'"
    by (simp_all add: a_def b_def r_def r'_def)
  have r: "0 \<le> r" "r < q" and r': "0 \<le> r'" "r' < q"
    using q by (simp_all add: r_def r'_def)
  have up: "x * q + q \<le> y * q" if "x < y" for x y :: int
  proof -
    from that have "x + 1 \<le> y" by simp
    then have "(x + 1) * q \<le> y * q" using q by (simp add: mult_right_mono)
    then show ?thesis by (simp add: algebra_simps)
  qed
  consider "a < b" | "a = b" | "b < a" by linarith
  then have "(n < m) = (a < b \<or> (a = b \<and> r < r'))"
  proof cases
    case 1
    with up [OF 1] n m r r' show ?thesis by simp
  next
    case 2
    with n m show ?thesis by simp
  next
    case 3
    with up [OF 3] n m r r' show ?thesis by simp
  qed
  then show ?thesis by (simp add: a_def b_def r_def r'_def)
qed

lemma div_256_range:
  fixes n :: int
  assumes "0 \<le> n" "n < 256 ^ Suc k"
  shows "0 \<le> n div 256 ^ k \<and> n div 256 ^ k < 256"
proof -
  define q :: int where "q = 256 ^ k"
  have q: "0 < q" by (simp add: q_def)
  have "n = (n div q) * q + n mod q" by simp
  moreover have "0 \<le> n mod q" using q by simp
  ultimately have "(n div q) * q \<le> n" by linarith
  moreover have "n < 256 * q" using assms by (simp add: q_def)
  ultimately have "(n div q) * q < 256 * q" by linarith
  then have "n div q < 256"
    using q by (simp add: mult_less_cancel_right)
  moreover have "0 \<le> n div q"
    using assms q by (simp add: pos_imp_zdiv_nonneg_iff)
  ultimately show ?thesis by (simp add: q_def)
qed

lemma be_bytes_less:
  "0 \<le> n \<Longrightarrow> n < 256 ^ k \<Longrightarrow> 0 \<le> m \<Longrightarrow> m < 256 ^ k \<Longrightarrow>
     (be_bytes k n < be_bytes k m) = (n < m)"
proof (induction k arbitrary: n m)
  case 0
  then show ?case by simp
next
  case (Suc k)
  have hn: "0 \<le> n div 256 ^ k" "n div 256 ^ k < 256"
    and hm: "0 \<le> m div 256 ^ k" "m div 256 ^ k < 256"
    using div_256_range Suc.prems by blast+
  have rn: "0 \<le> n mod 256 ^ k" "n mod 256 ^ k < 256 ^ k"
    and rm: "0 \<le> m mod 256 ^ k" "m mod 256 ^ k < 256 ^ k"
    by simp_all
  show ?case
    using Suc.IH [OF rn rm] div_mod_less_iff [of "256 ^ k" n m]
    by (simp add: byte_of_int_less [OF hn hm] byte_of_int_eq [OF hn hm])
qed

lemma length_be_bytes: "length (be_bytes k n) = k"
  by (induction k arbitrary: n) simp_all

lemma foldl_be_bytes:
  "0 \<le> n \<Longrightarrow> n < 256 ^ k \<Longrightarrow>
     foldl (\<lambda>acc b. acc * 256 + uint b) a (be_bytes k n) = a * 256 ^ k + n"
proof (induction k arbitrary: a n)
  case 0
  then show ?case by simp
next
  case (Suc k)
  have hn: "0 \<le> n div 256 ^ k" "n div 256 ^ k < 256"
    using div_256_range Suc.prems by blast+
  have rn: "0 \<le> n mod 256 ^ k" "n mod 256 ^ k < 256 ^ k" by simp_all
  have "(a * 256 + n div 256 ^ k) * 256 ^ k + n mod 256 ^ k = a * 256 ^ Suc k + n"
    by (simp add: algebra_simps)
  then show ?case
    using Suc.IH [OF rn] by (simp add: uint_byte_of_int [OF hn])
qed

lemma int64_shift: "int64 t \<Longrightarrow> 0 \<le> t + 2 ^ 63 \<and> t + 2 ^ 63 < 256 ^ 8"
  by (simp add: int64_def)

lemma TickIndex_round_trip: "int64 t \<Longrightarrow> TickIndexFromBytes (TickIndexToBytes t) = Inr t"
proof -
  assume t: "int64 t"
  have "from_be (be_bytes 8 (t + 2 ^ 63)) = t + 2 ^ 63"
    unfolding from_be_def using foldl_be_bytes [of "t + 2 ^ 63" 8 0] int64_shift [OF t] by simp
  then show ?thesis
    by (simp add: TickIndexFromBytes_def TickIndexToBytes_def length_be_bytes)
qed

lemma TickIndexToBytes_mono:
  assumes "int64 t" "int64 t'"
  shows "(TickIndexToBytes t \<le> TickIndexToBytes t') = (t \<le> t')"
proof -
  have "(TickIndexToBytes t' < TickIndexToBytes t) = (t' + 2 ^ 63 < t + 2 ^ 63)"
    unfolding TickIndexToBytes_def
    using be_bytes_less [of "t' + 2 ^ 63" 8 "t + 2 ^ 63"] int64_shift assms by blast
  then show ?thesis by (simp add: not_less [symmetric])
qed

section \<open>The next initialized tick\<close>

text \<open>
  C6: for any key encoding that preserves the order of tick indexes and decodes what it
  encodes (as the spec requires of the store keys), and any store whose keys encode
  ticks, the iterator returned for \<open>currentTickIndex\<close> is valid exactly when some
  stored tick is greater than \<open>currentTickIndex\<close>, and then its key is a stored key
  whose tick is the smallest stored tick greater than \<open>currentTickIndex\<close>. The scan
  starts at the key of the current tick, included, and goes up in key order.
\<close>

theorem InitializeNextTickIterator_next_tick:
  assumes mono: "\<forall>t t'. int64 t \<longrightarrow> int64 t' \<longrightarrow> (enc t \<le> enc t') = (t \<le> t')"
    and rt: "\<forall>t. int64 t \<longrightarrow> dec (enc t) = Inr t"
    and wf: "\<forall>kv\<in>set (ctx poolId). \<exists>t. int64 t \<and> fst kv = enc t"
    and cur: "int64 currentTickIndex"
  shows "\<exists>iter. InitializeNextTickIterator enc dec ctx poolId currentTickIndex = Return iter
           \<and> (Valid iter \<longleftrightarrow>
                (\<exists>kv\<in>set (ctx poolId). \<exists>t. dec (fst kv) = Inr t \<and> currentTickIndex < t))
           \<and> (Valid iter \<longrightarrow>
                (\<exists>t. dec (Key iter) = Inr t \<and> currentTickIndex < t
                   \<and> Key iter \<in> fst ` set (ctx poolId)
                   \<and> (\<forall>kv\<in>set (ctx poolId). \<forall>t'.
                         dec (fst kv) = Inr t' \<and> currentTickIndex < t' \<longrightarrow> t \<le> t')))"
proof -
  let ?c = currentTickIndex
  let ?xs = "prefixStore_Iterator (enc ?c) (ctx poolId)"
  let ?P = "not_above dec ?c"
  let ?it = "dropWhile ?P ?xs"
  have dec_all: "\<exists>t. int64 t \<and> fst kv = enc t \<and> dec (fst kv) = Inr t"
    if "kv \<in> set (ctx poolId)" for kv
    using that wf rt by fastforce
  have sub: "set ?xs \<subseteq> set (ctx poolId)"
    by (auto simp: set_prefixStore_Iterator)
  have above_in: "kv \<in> set ?xs"
    if kv: "kv \<in> set (ctx poolId)" and t: "dec (fst kv) = Inr t" and gt: "?c < t" for kv t
  proof -
    obtain u where u: "int64 u" "fst kv = enc u" "dec (fst kv) = Inr u"
      using dec_all [OF kv] by blast
    then have "u = t" using t by simp
    then have "enc ?c \<le> fst kv" using u mono cur gt by simp
    then show ?thesis using kv by (simp add: set_prefixStore_Iterator)
  qed
  have run: "InitializeNextTickIterator enc dec ctx poolId ?c = Return ?it"
    unfolding InitializeNextTickIterator_def Let_def
    by (rule nextTickLoop_dropWhile) (use dec_all sub in blast)
  have valid: "Valid ?it \<longleftrightarrow>
                (\<exists>kv\<in>set (ctx poolId). \<exists>t. dec (fst kv) = Inr t \<and> ?c < t)"
  proof
    assume "Valid ?it"
    then obtain kv where "kv \<in> set ?xs" "\<not> ?P kv"
      by (auto simp: Valid_def dropWhile_eq_Nil_conv)
    then show "\<exists>kv\<in>set (ctx poolId). \<exists>t. dec (fst kv) = Inr t \<and> ?c < t"
      using sub by (auto simp: not_above_def split: sum.splits)
  next
    assume "\<exists>kv\<in>set (ctx poolId). \<exists>t. dec (fst kv) = Inr t \<and> ?c < t"
    then obtain kv t where "kv \<in> set (ctx poolId)" "dec (fst kv) = Inr t" "?c < t"
      by blast
    then have "kv \<in> set ?xs" "\<not> ?P kv"
      using above_in by (auto simp: not_above_def)
    then show "Valid ?it"
      by (auto simp: Valid_def dropWhile_eq_Nil_conv)
  qed
  have least: "\<exists>t. dec (Key ?it) = Inr t \<and> ?c < t
                   \<and> Key ?it \<in> fst ` set (ctx poolId)
                   \<and> (\<forall>kv\<in>set (ctx poolId). \<forall>t'.
                         dec (fst kv) = Inr t' \<and> ?c < t' \<longrightarrow> t \<le> t')"
    if v: "Valid ?it"
  proof -
    have ne: "?it \<noteq> []" using v by (simp add: Valid_def)
    then have hd_in: "hd ?it \<in> set ?xs"
      by (metis hd_in_set set_dropWhileD)
    have hd_above: "\<not> ?P (hd ?it)"
      using ne by (simp add: hd_dropWhile)
    obtain t where t: "int64 t" "fst (hd ?it) = enc t" "dec (fst (hd ?it)) = Inr t"
      using dec_all hd_in sub by blast
    have gt: "?c < t"
      using hd_above t by (simp add: not_above_def)
    have min: "t \<le> t'"
      if kv: "kv \<in> set (ctx poolId)" and t': "dec (fst kv) = Inr t'" and gt': "?c < t'" for kv t'
    proof -
      obtain u where u: "int64 u" "fst kv = enc u" "dec (fst kv) = Inr u"
        using dec_all [OF kv] by blast
      then have ut: "u = t'" using t' by simp
      have "kv \<in> set ?xs" using above_in [OF kv t' gt'] .
      moreover have "\<not> ?P kv" using t' gt' by (simp add: not_above_def)
      ultimately have "fst (hd ?it) \<le> fst kv"
        using sorted_first_is_least [OF sorted_prefixStore_Iterator] by blast
      then show ?thesis using t u ut mono by simp
    qed
    have "Key ?it \<in> fst ` set (ctx poolId)"
      using hd_in sub by (auto simp: Key_def)
    then show ?thesis
      using t gt min by (auto simp: Key_def)
  qed
  show ?thesis
    using run valid least by blast
qed

theorem InitializeNextTickIterator_next_tick_witness:
  "\<exists>iter. InitializeNextTickIterator TickIndexToBytes TickIndexFromBytes exampleTicks 1 0
            = Return iter
          \<and> Valid iter
          \<and> TickIndexFromBytes (Key iter) = Inr 100"
proof -
  have mono: "\<forall>t t'. int64 t \<longrightarrow> int64 t' \<longrightarrow>
                (TickIndexToBytes t \<le> TickIndexToBytes t') = (t \<le> t')"
    using TickIndexToBytes_mono by blast
  have rt: "\<forall>t. int64 t \<longrightarrow> TickIndexFromBytes (TickIndexToBytes t) = Inr t"
    using TickIndex_round_trip by blast
  have i100: "int64 100" and i200: "int64 (- 200)" and i0: "int64 0" and i300: "int64 300"
    by (simp_all add: int64_def)
  have wf: "\<forall>kv\<in>set (exampleTicks 1). \<exists>t. int64 t \<and> fst kv = TickIndexToBytes t"
    using i100 i200 i0 i300 by (auto simp: exampleTicks_def)
  have d: "TickIndexFromBytes (TickIndexToBytes 100) = Inr 100"
          "TickIndexFromBytes (TickIndexToBytes (- 200)) = Inr (- 200)"
          "TickIndexFromBytes (TickIndexToBytes 0) = Inr 0"
          "TickIndexFromBytes (TickIndexToBytes 300) = Inr 300"
    using rt i100 i200 i0 i300 by blast+
  from InitializeNextTickIterator_next_tick
         [where enc = TickIndexToBytes and dec = TickIndexFromBytes and ctx = exampleTicks
            and poolId = 1 and currentTickIndex = 0, OF mono rt wf i0]
  obtain iter where run: "InitializeNextTickIterator TickIndexToBytes TickIndexFromBytes
                            exampleTicks 1 0 = Return iter"
    and valid: "Valid iter \<longleftrightarrow>
                  (\<exists>kv\<in>set (exampleTicks 1). \<exists>t. TickIndexFromBytes (fst kv) = Inr t \<and> 0 < t)"
    and least: "Valid iter \<longrightarrow>
                  (\<exists>t. TickIndexFromBytes (Key iter) = Inr t \<and> 0 < t
                     \<and> Key iter \<in> fst ` set (exampleTicks 1)
                     \<and> (\<forall>kv\<in>set (exampleTicks 1). \<forall>t'.
                           TickIndexFromBytes (fst kv) = Inr t' \<and> 0 < t' \<longrightarrow> t \<le> t'))"
    by blast
  have v: "Valid iter"
    using valid d by (auto simp: exampleTicks_def)
  then obtain t where t: "TickIndexFromBytes (Key iter) = Inr t" "0 < t"
      "Key iter \<in> fst ` set (exampleTicks 1)"
      "\<forall>kv\<in>set (exampleTicks 1). \<forall>t'.
          TickIndexFromBytes (fst kv) = Inr t' \<and> 0 < t' \<longrightarrow> t \<le> t'"
    using least by blast
  have "t \<le> 100" using t(4) d by (auto simp: exampleTicks_def)
  moreover have "t = 100 \<or> t = - 200 \<or> t = 0 \<or> t = 300"
    using t(1,3) d by (auto simp: exampleTicks_def)
  ultimately have "t = 100" using t(2) by auto
  with run v t(1) show ?thesis by blast
qed

text \<open>
  The same call evaluated, and the call for the highest stored tick, after which no
  tick is left: the iterator returned is not valid.
\<close>

lemma InitializeNextTickIterator_example:
  "InitializeNextTickIterator TickIndexToBytes TickIndexFromBytes exampleTicks 1 0
     = Return [(TickIndexToBytes 100, ''c''), (TickIndexToBytes 300, ''d'')]
   \<and> InitializeNextTickIterator TickIndexToBytes TickIndexFromBytes exampleTicks 1 300
     = Return []"
  by code_simp

text \<open>
  C7, as stated: a stored key that does not decode is reported to the caller as a typed
  error. It is not: the function has no error result, and on the key \<open>[0xFF]\<close>, which
  the scan from tick 100 visits, it panics.
\<close>

theorem InitializeNextTickIterator_decode_failure_counterexample:
  "InitializeNextTickIterator TickIndexToBytes TickIndexFromBytes corruptedTicks 1 100
     = Panic (InvalidTickIndex [0xFF] (InvalidTickIndexEncoding 1))"
  by code_simp

text \<open>
  C7, amended: when a stored key that the iteration visits does not decode, the function
  panics with the invalid-tick-index error made of the key and the decode error, and
  returns nothing. The keys visited are those from the start key on, in ascending order,
  up to the first whose tick is greater than the current tick index; when such a tick
  comes first the iterator is returned there, whatever the keys after it.
\<close>

theorem InitializeNextTickIterator_panics_on_visited_key:
  "(prefixStore_Iterator (enc currentTickIndex) (ctx poolId) = pre @ (k, v) # post
      \<and> (\<forall>kv\<in>set pre. \<exists>t. dec (fst kv) = Inr t \<and> t \<le> currentTickIndex)
      \<and> dec k = Inl e
    \<longrightarrow> InitializeNextTickIterator enc dec ctx poolId currentTickIndex
          = Panic (InvalidTickIndex k e))
   \<and> (prefixStore_Iterator (enc currentTickIndex) (ctx poolId) = pre @ (k, v) # post
      \<and> (\<forall>kv\<in>set pre. \<exists>t. dec (fst kv) = Inr t \<and> t \<le> currentTickIndex)
      \<and> dec k = Inr tick \<and> currentTickIndex < tick
    \<longrightarrow> InitializeNextTickIterator enc dec ctx poolId currentTickIndex
          = Return ((k, v) # post))"
  using nextTickLoop_panics [of pre dec currentTickIndex k e v post]
        nextTickLoop_stops [of pre dec currentTickIndex k tick v post]
  by (simp add: InitializeNextTickIterator_def)

theorem InitializeNextTickIterator_panics_on_visited_key_witness:
  "prefixStore_Iterator (TickIndexToBytes 100) (corruptedTicks 1)
     = [(TickIndexToBytes 100, ''c'')] @ ([0xFF], ''x'') # []
   \<and> TickIndexFromBytes (TickIndexToBytes 100) = Inr 100
   \<and> TickIndexFromBytes [0xFF] = Inl (InvalidTickIndexEncoding 1)
   \<and> InitializeNextTickIterator TickIndexToBytes TickIndexFromBytes corruptedTicks 1 100
       = Panic (InvalidTickIndex [0xFF] (InvalidTickIndexEncoding 1))
   \<and> prefixStore_Iterator (TickIndexToBytes 0) (corruptedTicks 1)
       = [(TickIndexToBytes 0, ''b'')] @ (TickIndexToBytes 100, ''c'') # [([0xFF], ''x'')]
   \<and> TickIndexFromBytes (TickIndexToBytes 0) = Inr 0
   \<and> InitializeNextTickIterator TickIndexToBytes TickIndexFromBytes corruptedTicks 1 0
       = Return ((TickIndexToBytes 100, ''c'') # [([0xFF], ''x'')])"
proof -
  have it: "prefixStore_Iterator (TickIndexToBytes 100) (corruptedTicks 1)
              = [(TickIndexToBytes 100, ''c'')] @ ([0xFF], ''x'') # []"
    by code_simp
  have d100: "TickIndexFromBytes (TickIndexToBytes 100) = Inr 100"
    by code_simp
  have d0: "TickIndexFromBytes (TickIndexToBytes 0) = Inr 0"
    by code_simp
  have pre: "\<forall>kv\<in>set [(TickIndexToBytes 100, ''c'')].
               \<exists>t. TickIndexFromBytes (fst kv) = Inr t \<and> t \<le> 100"
    using d100 by simp
  have bad: "TickIndexFromBytes [0xFF] = Inl (InvalidTickIndexEncoding 1)"
    by (simp add: TickIndexFromBytes_def)
  have it0: "prefixStore_Iterator (TickIndexToBytes 0) (corruptedTicks 1)
       = [(TickIndexToBytes 0, ''b'')] @ (TickIndexToBytes 100, ''c'') # [([0xFF], ''x'')]"
    by code_simp
  have pre0: "\<forall>kv\<in>set [(TickIndexToBytes 0, ''b'')].
               \<exists>t. TickIndexFromBytes (fst kv) = Inr t \<and> t \<le> 0"
    using d0 by simp
  have lt: "(0::int) < 100" by simp
  have p: "InitializeNextTickIterator TickIndexToBytes TickIndexFromBytes corruptedTicks 1 100
       = Panic (InvalidTickIndex [0xFF] (InvalidTickIndexEncoding 1))"
    using InitializeNextTickIterator_panics_on_visited_key
            [of TickIndexToBytes 100 corruptedTicks 1 "[(TickIndexToBytes 100, ''c'')]"
                "[0xFF]" "''x''" "[]" TickIndexFromBytes "InvalidTickIndexEncoding 1"]
          it pre bad
    by blast
  have r: "InitializeNextTickIterator TickIndexToBytes TickIndexFromBytes corruptedTicks 1 0
       = Return ((TickIndexToBytes 100, ''c'') # [([0xFF], ''x'')])"
    using InitializeNextTickIterator_panics_on_visited_key
            [of TickIndexToBytes 0 corruptedTicks 1 "[(TickIndexToBytes 0, ''b'')]"
                "TickIndexToBytes 100" "''c''" "[([0xFF], ''x'')]" TickIndexFromBytes _ 100]
          it0 pre0 d100 lt
    by blast
  from it bad p it0 d100 d0 r show ?thesis by blast
qed

section \<open>Updating the liquidity of a position\<close>

text \<open>
  C8: for every position stored under the key and every \<open>liquidityDelta\<close>, of either
  sign, the update returns the store in which that position has its liquidity replaced
  by the previous liquidity plus the delta, negative or not, and every other field
  unchanged; no other key of the store changes.
\<close>

theorem UpdatePositionWithLiquidity_adds_delta:
  assumes "store (KeyPosition poolId owner lowerTick upperTick) = Some position"
  shows "UpdatePositionWithLiquidity KeyPosition store poolId owner lowerTick upperTick liquidityDelta
           = Return (store(KeyPosition poolId owner lowerTick upperTick \<mapsto>
                       position\<lparr>Liquidity := Liquidity position + liquidityDelta\<rparr>))
       \<and> Position.more (position\<lparr>Liquidity := Liquidity position + liquidityDelta\<rparr>)
           = Position.more position"
  using assms
  by (simp add: UpdatePositionWithLiquidity_def getPosition_def setPosition_def)

theorem UpdatePositionWithLiquidity_adds_delta_witness:
  "examplePositions (1, ''alice'', - 100, 100) = Some \<lparr>Liquidity = 5\<rparr>
   \<and> UpdatePositionWithLiquidity (\<lambda>p ow l u. (p, ow, l, u)) examplePositions
        1 ''alice'' (- 100) 100 (- 7)
      = Return (examplePositions((1, ''alice'', - 100, 100) \<mapsto> \<lparr>Liquidity = - 2\<rparr>))"
proof -
  have stored: "examplePositions (1, ''alice'', - 100, 100) = Some \<lparr>Liquidity = 5\<rparr>"
    by (simp add: examplePositions_def)
  from UpdatePositionWithLiquidity_adds_delta
         [of examplePositions "\<lambda>p ow l u. (p, ow, l, u)" 1 "''alice''" "- 100" 100
             "\<lparr>Liquidity = 5\<rparr>" "- 7"] stored
  show ?thesis by simp
qed

section \<open>Adding an authenticator\<close>

lemma AddAuthenticator_store:
  "AddAuthenticator d ctx msg = Return (r, ctx') \<Longrightarrow>
     kvStore ctx' = kvStore ctx
   \<or> (\<exists>sender auths. AccAddressFromBech32 d (Sender msg) = Inr sender
         \<and> GetAuthenticatorsForAccount d (kvStore ctx) sender = Inr auths
         \<and> length auths < 15
         \<and> KeeperAddAuthenticator d (kvStore ctx) sender (Type msg) (Data msg) = Inr (kvStore ctx'))"
  by (auto simp: AddAuthenticator_def split: sum.splits if_splits outcome.splits option.splits)

text \<open>
  C9: when the sender's account already has 15 or more authenticators the call returns
  the maximum-reached error and the context it was given, store included. With a keeper
  that appends one authenticator to the account it is called for, a store in which every
  account has at most 15 authenticators is still such a store after any call that returns.
\<close>

theorem AddAuthenticator_at_most_15:
  "(AccAddressFromBech32 d (Sender msg) = Inr sender
      \<and> GetAuthenticatorsForAccount d (kvStore ctx) sender = Inr authenticators
      \<and> 15 \<le> length authenticators
    \<longrightarrow> AddAuthenticator d ctx msg = Return (Inl (MaximumAuthenticatorsReached 15), ctx))
   \<and> (keeper_appends d \<and> at_most_15 (kvStore ctx)
        \<and> AddAuthenticator d ctx msg = Return (r, ctx')
    \<longrightarrow> at_most_15 (kvStore ctx'))"
proof (intro conjI impI)
  assume "AccAddressFromBech32 d (Sender msg) = Inr sender
      \<and> GetAuthenticatorsForAccount d (kvStore ctx) sender = Inr authenticators
      \<and> 15 \<le> length authenticators"
  then show "AddAuthenticator d ctx msg = Return (Inl (MaximumAuthenticatorsReached 15), ctx)"
    by (auto simp: AddAuthenticator_def)
next
  assume a: "keeper_appends d \<and> at_most_15 (kvStore ctx)
        \<and> AddAuthenticator d ctx msg = Return (r, ctx')"
  then have k: "keeper_appends d" and inv: "at_most_15 (kvStore ctx)"
    and run: "AddAuthenticator d ctx msg = Return (r, ctx')" by simp_all
  from AddAuthenticator_store [OF run] show "at_most_15 (kvStore ctx')"
  proof
    assume "kvStore ctx' = kvStore ctx"
    then show ?thesis using inv by simp
  next
    assume "\<exists>sender auths. AccAddressFromBech32 d (Sender msg) = Inr sender
         \<and> GetAuthenticatorsForAccount d (kvStore ctx) sender = Inr auths
         \<and> length auths < 15
         \<and> KeeperAddAuthenticator d (kvStore ctx) sender (Type msg) (Data msg) = Inr (kvStore ctx')"
    then obtain sender auths where
      g: "GetAuthenticatorsForAccount d (kvStore ctx) sender = Inr auths"
      and l: "length auths < 15"
      and add: "KeeperAddAuthenticator d (kvStore ctx) sender (Type msg) (Data msg) = Inr (kvStore ctx')"
      by blast
    from k g have eq: "auths = kvStore ctx sender"
      unfolding keeper_appends_def by blast
    from k add obtain x where x: "kvStore ctx' = (kvStore ctx)(sender := kvStore ctx sender @ [x])"
      unfolding keeper_appends_def by blast
    show ?thesis
      unfolding at_most_15_def
    proof
      fix a
      show "length (kvStore ctx' a) \<le> 15"
        using x l eq inv by (cases "a = sender") (auto simp: at_most_15_def)
    qed
  qed
qed

theorem AddAuthenticator_at_most_15_witness:
  "AccAddressFromBech32 exampleDeps ''alice'' = Inr [1]
   \<and> GetAuthenticatorsForAccount exampleDeps (kvStore exampleContext) [1]
       = Inr (replicate 15 (''SignatureVerificationAuthenticator'', []))
   \<and> AddAuthenticator exampleDeps exampleContext
        \<lparr>Sender = ''alice'', Type = ''SignatureVerificationAuthenticator'', Data = []\<rparr>
      = Return (Inl (MaximumAuthenticatorsReached 15), exampleContext)
   \<and> at_most_15 (kvStore exampleContext)
   \<and> (\<exists>ctx'. AddAuthenticator exampleDeps exampleContext
                 \<lparr>Sender = ''bob'', Type = ''SignatureVerificationAuthenticator'',
                  Data = 2 # replicate 32 0\<rparr>
               = Return (Inr \<lparr>Success = True\<rparr>, ctx')
             \<and> length (kvStore ctx' [2]) = 1
             \<and> at_most_15 (kvStore ctx'))"
proof -
  let ?alice = "\<lparr>Sender = ''alice'', Type = ''SignatureVerificationAuthenticator'', Data = []\<rparr>"
  let ?bob = "\<lparr>Sender = ''bob'', Type = ''SignatureVerificationAuthenticator'',
               Data = 2 # replicate 32 0\<rparr>"
  have parse: "AccAddressFromBech32 exampleDeps (Sender ?alice) = Inr [1]"
    by (simp add: exampleDeps_def)
  have auths: "GetAuthenticatorsForAccount exampleDeps (kvStore exampleContext) [1]
                 = Inr (replicate 15 (''SignatureVerificationAuthenticator'', []))"
    by (simp add: exampleDeps_def exampleContext_def)
  have full: "15 \<le> length (replicate 15 (''SignatureVerificationAuthenticator'', [] :: bytes))"
    by simp
  have k: "keeper_appends exampleDeps"
    by (auto simp: keeper_appends_def exampleDeps_def)
  have inv: "at_most_15 (kvStore exampleContext)"
    by (simp add: at_most_15_def exampleContext_def)
  have bob: "\<exists>ctx'. AddAuthenticator exampleDeps exampleContext ?bob
                      = Return (Inr \<lparr>Success = True\<rparr>, ctx')
                    \<and> length (kvStore ctx' [2]) = 1"
    by (simp add: AddAuthenticator_def exampleDeps_def exampleContext_def PubKey_Address_def
        PubKeySize_def)
  then obtain ctx' where run: "AddAuthenticator exampleDeps exampleContext ?bob
                                 = Return (Inr \<lparr>Success = True\<rparr>, ctx')"
    and one: "length (kvStore ctx' [2]) = 1"
    by blast
  have rejected: "AddAuthenticator exampleDeps exampleContext ?alice
                    = Return (Inl (MaximumAuthenticatorsReached 15), exampleContext)"
    using AddAuthenticator_at_most_15
            [of exampleDeps ?alice "[1]" exampleContext
                "replicate 15 (''SignatureVerificationAuthenticator'', [])"]
          parse auths full
    by blast
  have kept: "at_most_15 (kvStore ctx')"
    using AddAuthenticator_at_most_15 [of exampleDeps ?bob _ exampleContext _ _ ctx'] k inv run
    by blast
  from parse auths rejected k inv run one kept show ?thesis by auto
qed

text \<open>
  The first authenticator of an account. A call that succeeds for an account without
  authenticators had the signature-verification type and a key of 33 bytes whose
  address is the sender's. A call with a key of 33 bytes and another type, or another
  address, returns an error and the context it was given.
\<close>

lemma AddAuthenticator_first_success_only_if:
  assumes "AccAddressFromBech32 d (Sender msg) = Inr sender"
    and "GetAuthenticatorsForAccount d (kvStore ctx) sender = Inr []"
    and "AddAuthenticator d ctx msg = Return (Inr resp, ctx')"
  shows "Type msg = SignatureVerificationAuthenticatorType d
       \<and> length (Data msg) = PubKeySize
       \<and> ripemd160_sha256 d (Data msg) = sender"
  using assms
  by (auto simp: AddAuthenticator_def PubKey_Address_def
      split: sum.splits if_splits outcome.splits option.splits)

lemma AddAuthenticator_first_rejected:
  assumes "AccAddressFromBech32 d (Sender msg) = Inr sender"
    and "GetAuthenticatorsForAccount d (kvStore ctx) sender = Inr []"
    and "length (Data msg) = PubKeySize"
    and "Type msg \<noteq> SignatureVerificationAuthenticatorType d
         \<or> ripemd160_sha256 d (Data msg) \<noteq> sender"
  shows "\<exists>err. AddAuthenticator d ctx msg = Return (Inl err, ctx)"
  using assms
  by (auto simp: AddAuthenticator_def PubKey_Address_def)

lemma AddAuthenticator_first_type_rejected:
  assumes "AccAddressFromBech32 d (Sender msg) = Inr sender"
    and "GetAuthenticatorsForAccount d (kvStore ctx) sender = Inr []"
    and "Type msg \<noteq> SignatureVerificationAuthenticatorType d"
  shows "AddAuthenticator d ctx msg = Return (Inl FirstMustBeSignatureVerification, ctx)"
  using assms
  by (auto simp: AddAuthenticator_def PubKey_Address_def)

lemma AddAuthenticator_first_bad_length_panics:
  assumes "AccAddressFromBech32 d (Sender msg) = Inr sender"
    and "GetAuthenticatorsForAccount d (kvStore ctx) sender = Inr []"
    and "Type msg = SignatureVerificationAuthenticatorType d"
    and "length (Data msg) \<noteq> PubKeySize"
  shows "AddAuthenticator d ctx msg = Panic ''length of pubkey is incorrect''"
  using assms
  by (auto simp: AddAuthenticator_def PubKey_Address_def)

text \<open>
  C10 at the input where code and claim part: an account without authenticators, the
  signature-verification type, and data that is not 33 bytes long (here, no data). The
  claim has the call return an error; the address computation of line 55 panics on the
  key, so the call panics (no authenticator is added).
\<close>

theorem AddAuthenticator_first_key_of_wrong_length_panics:
  "AddAuthenticator exampleDeps exampleContext
     \<lparr>Sender = ''bob'', Type = ''SignatureVerificationAuthenticator'', Data = []\<rparr>
   = Panic ''length of pubkey is incorrect''"
  by (simp add: AddAuthenticator_def exampleDeps_def exampleContext_def PubKey_Address_def
      PubKeySize_def)

end
